theory Spec2Isabelle
  imports Main "HOL-Library.AList"
begin

section \<open>Go strings\<close>

text \<open>
  A Go string is a sequence of bytes, so it is modelled by \<^typ>\<open>string\<close> (a list of
  8-bit characters); the Russian marker words of the source are written out as their
  UTF-8 bytes. \<open>strings.HasPrefix\<close>, \<open>strings.Contains\<close>, \<open>strings.Split\<close>,
  \<open>strings.ReplaceAll\<close>, \<open>strings.Trim\<close> and \<open>strings.TrimSpace\<close> are modelled on bytes.
  \<open>strings.ToLower\<close> depends on the Unicode case tables and is a parameter \<open>lower\<close> of
  every function that calls it.
\<close>

definition HasPrefix :: "string \<Rightarrow> string \<Rightarrow> bool" where
  "HasPrefix s pre \<longleftrightarrow> length pre \<le> length s \<and> take (length pre) s = pre"

fun Contains :: "string \<Rightarrow> string \<Rightarrow> bool" where
  "Contains [] substr = (substr = [])"
| "Contains (c # cs) substr = (HasPrefix (c # cs) substr \<or> Contains cs substr)"

text \<open>\<open>strings.Split(s, sep)\<close> for a one-byte separator (the source splits on a comma only).\<close>

fun Split_from :: "string \<Rightarrow> char \<Rightarrow> string \<Rightarrow> string list" where
  "Split_from [] sep cur = [cur]"
| "Split_from (c # cs) sep cur =
     (if c = sep then cur # Split_from cs sep [] else Split_from cs sep (cur @ [c]))"

definition Split :: "string \<Rightarrow> char \<Rightarrow> string list" where
  "Split s sep = Split_from s sep []"

text \<open>
  \<open>strings.ReplaceAll(s, old, new)\<close> for a non-empty \<open>old\<close>: the occurrences are replaced
  from left to right without overlap. (With an empty \<open>old\<close> Go inserts \<open>new\<close> around every
  rune; the source never does that, and the model leaves \<open>s\<close> as it is.)
\<close>

function ReplaceAll :: "string \<Rightarrow> string \<Rightarrow> string \<Rightarrow> string" where
  "ReplaceAll [] old new = []"
| "ReplaceAll (c # cs) old new =
     (if old \<noteq> [] \<and> HasPrefix (c # cs) old
      then new @ ReplaceAll (drop (length old) (c # cs)) old new
      else c # ReplaceAll cs old new)"
  by pat_completeness auto
termination
  by (relation "measure (\<lambda>(s, old, new). length s)") auto

text \<open>
  The UTF-8 encodings of the runes that \<open>unicode.IsSpace\<close> accepts: tab, line feed,
  vertical tab, form feed, carriage return, space, U+0085, U+00A0, U+1680,
  U+2000 to U+200A, U+2028, U+2029, U+202F, U+205F and U+3000. No encoding is a prefix
  of another one, and none starts with a continuation byte, so decoding a rune at the
  front (or at the back) of a string finds a space exactly when the string starts (or
  ends) with one of these byte sequences.
\<close>

definition unicode_spaces :: "string list" where
  "unicode_spaces =
     [[CHR 0x09], [CHR 0x0A], [CHR 0x0B], [CHR 0x0C], [CHR 0x0D], [CHR 0x20],
      [CHR 0xC2, CHR 0x85], [CHR 0xC2, CHR 0xA0], [CHR 0xE1, CHR 0x9A, CHR 0x80],
      [CHR 0xE2, CHR 0x80, CHR 0x80], [CHR 0xE2, CHR 0x80, CHR 0x81],
      [CHR 0xE2, CHR 0x80, CHR 0x82], [CHR 0xE2, CHR 0x80, CHR 0x83],
      [CHR 0xE2, CHR 0x80, CHR 0x84], [CHR 0xE2, CHR 0x80, CHR 0x85],
      [CHR 0xE2, CHR 0x80, CHR 0x86], [CHR 0xE2, CHR 0x80, CHR 0x87],
      [CHR 0xE2, CHR 0x80, CHR 0x88], [CHR 0xE2, CHR 0x80, CHR 0x89],
      [CHR 0xE2, CHR 0x80, CHR 0x8A], [CHR 0xE2, CHR 0x80, CHR 0xA8],
      [CHR 0xE2, CHR 0x80, CHR 0xA9], [CHR 0xE2, CHR 0x80, CHR 0xAF],
      [CHR 0xE2, CHR 0x81, CHR 0x9F], [CHR 0xE3, CHR 0x80, CHR 0x80]]"

text \<open>Strips, from the front of \<open>s\<close>, every leading byte sequence that is one of \<open>encs\<close>.\<close>

function strip_leading :: "string list \<Rightarrow> string \<Rightarrow> string" where
  "strip_leading encs s =
     (case find (\<lambda>e. e \<noteq> [] \<and> HasPrefix s e) encs of
        Some e \<Rightarrow> strip_leading encs (drop (length e) s)
      | None \<Rightarrow> s)"
  by pat_completeness auto
termination
proof (relation "measure (\<lambda>(encs, s). length s)")
  show "wf (measure (\<lambda>(encs, s). length s))" by simp
next
  fix encs :: "string list" and s e :: string
  assume "find (\<lambda>e. e \<noteq> [] \<and> HasPrefix s e) encs = Some e"
  then have "e \<noteq> [] \<and> HasPrefix s e"
    by (auto simp: find_Some_iff)
  then have "0 < length e \<and> length e \<le> length s"
    by (simp add: HasPrefix_def)
  then have "length s - length e < length s"
    by arith
  then show "((encs, drop (length e) s), (encs, s)) \<in> measure (\<lambda>(encs, s). length s)"
    by simp
qed

declare strip_leading.simps [simp del]

definition TrimSpace :: "string \<Rightarrow> string" where
  "TrimSpace s =
     rev (strip_leading (map rev unicode_spaces) (rev (strip_leading unicode_spaces s)))"

text \<open>\<open>strings.Trim(s, cutset)\<close> for a cutset of ASCII bytes.\<close>

definition Trim :: "string \<Rightarrow> string \<Rightarrow> string" where
  "Trim s cutset =
     rev (dropWhile (\<lambda>c. c \<in> set cutset) (rev (dropWhile (\<lambda>c. c \<in> set cutset) s)))"

text \<open>
  An instance of \<open>strings.ToLower\<close> for evaluating examples: it agrees with Go on
  valid UTF-8 text made of ASCII and of the Cyrillic letters U+0400 to U+042F
  (lead byte \<open>0xD0\<close>), whose lower-case forms are U+0450 to U+045F and U+0430 to U+044F.
\<close>

definition lower_ascii :: "char \<Rightarrow> char" where
  "lower_ascii c =
     (if (0x41::nat) \<le> of_char c \<and> of_char c \<le> (0x5A::nat)
      then char_of (of_char c + (0x20::nat)) else c)"

fun ToLower_ru :: "string \<Rightarrow> string" where
  "ToLower_ru (c # d # cs) =
     (if c = CHR 0xD0 \<and> (0x80::nat) \<le> of_char d \<and> of_char d \<le> (0x8F::nat)
      then CHR 0xD1 # char_of (of_char d + (0x10::nat)) # ToLower_ru cs
      else if c = CHR 0xD0 \<and> (0x90::nat) \<le> of_char d \<and> of_char d \<le> (0x9F::nat)
      then CHR 0xD0 # char_of (of_char d + (0x20::nat)) # ToLower_ru cs
      else if c = CHR 0xD0 \<and> (0xA0::nat) \<le> of_char d \<and> of_char d \<le> (0xAF::nat)
      then CHR 0xD1 # char_of (of_char d - (0x20::nat)) # ToLower_ru cs
      else lower_ascii c # ToLower_ru (d # cs))"
| "ToLower_ru [c] = [lower_ascii c]"
| "ToLower_ru [] = []"


text \<open>\<open>strings.Join\<close>, and \<open>%d\<close> of \<open>fmt.Sprintf\<close> on a length (a natural number).\<close>

fun Join :: "string list \<Rightarrow> string \<Rightarrow> string" where
  "Join [] sep = []"
| "Join [x] sep = x"
| "Join (x # y # ys) sep = x @ sep @ Join (y # ys) sep"

fun decimal :: "nat \<Rightarrow> string" where
  "decimal n =
     (if n < 10 then [char_of (48 + n)]
      else decimal (n div 10) @ [char_of (48 + n mod 10)])"

section \<open>Data model (package models)\<close>

text \<open>
  Field names carry a prefix for their struct, since Isabelle's field selectors share one
  name space. A Go map is an association list with distinct keys, written to with
  \<^const>\<open>AList.update\<close>; where the source ranges over a map, the order of the list stands
  for the order in which Go happens to visit the entries, so a theorem that holds for
  every list holds for every iteration order. A pointer that may be \<open>nil\<close> is an
  \<^typ>\<open>'a option\<close>. The pointers stored in the parameter maps are never \<open>nil\<close>
  (the parser stores no \<open>nil\<close>), so the values of these maps are plain records.
  \<open>Parameter\<close> has the field \<open>ArrayItemType\<close> that the generator reads; the field
  \<open>AdditionalInfo\<close> is neither written nor read by the code modelled here and is left out.
\<close>

record MethodInfo =
  m_Name :: string
  m_Title :: string
  m_Description :: string
  m_AccessLevel :: string
  m_HTTPMethod :: string

record Parameter =
  p_Name :: string
  p_Type :: string
  p_Required :: bool
  p_Description :: string
  p_AllowedValues :: string
  p_ArrayItemType :: string

record Error =
  e_Code :: string
  e_Mnemonic :: string
  e_Description :: string

record ErrorInfo =
  Errors :: "Error list"

text \<open>A decoded JSON value (\<open>interface{}\<close> as \<open>encoding/json\<close> fills it).\<close>

datatype json =
  JNull | JBool bool | JNumber int | JString string | JArray "json list"
| JObject "(string \<times> json) list"

record APIData =
  a_MethodInfo :: "MethodInfo option"
  a_RequestParams :: "(string \<times> Parameter) list"
  a_ResponseParams :: "(string \<times> Parameter) list"
  a_RequestJSON :: "(string \<times> json) list option"
  a_ResponseJSON :: "(string \<times> json) list option"
  a_ErrorInfo :: "ErrorInfo option"

section \<open>OpenAPI documents (package generate)\<close>

text \<open>The values the generator stores in an \<open>interface{}\<close> (examples and enum entries).\<close>

datatype any = AnyNil | AnyString string | AnyInt int | AnyBool bool | AnyEmptySlice

text \<open>
  \<open>Schema\<close> is recursive, so it is a datatype; its arguments are, in this order,
  \<open>Type\<close>, \<open>Properties\<close>, \<open>Required\<close>, \<open>Description\<close>, \<open>Example\<close>, \<open>Enum\<close>, \<open>Format\<close>
  and \<open>Items\<close>. The remaining fields of the Go struct (\<open>MaxLength\<close>, \<open>MinLength\<close>,
  \<open>Maximum\<close>, \<open>Minimum\<close>, \<open>XFiltering\<close>, \<open>XSorting\<close>) are never assigned.
\<close>

datatype Schema =
  Schema (s_Type: string) (s_Properties: "(string \<times> Schema) list")
    (s_Required: "string list") (s_Description: string) (s_Example: any)
    (s_Enum: "any list") (s_Format: string) (s_Items: "Schema option")

record MediaType =
  mt_Schema :: Schema

record RequestBody =
  rb_Required :: bool
  rb_Content :: "(string \<times> MediaType) list"

record Response =
  r_Description :: string
  r_Content :: "(string \<times> MediaType) list"

record Operation =
  o_Summary :: string
  o_Description :: string
  o_RequestBody :: "RequestBody option"
  o_Responses :: "(string \<times> Response) list"
  o_Tags :: "string list"

record PathItem =
  Post :: "Operation option"
  Get :: "Operation option"
  Put :: "Operation option"
  Delete :: "Operation option"

record OpenAPIInfo =
  i_Title :: string
  i_Version :: string
  i_Description :: string

record OpenAPISpec =
  OpenAPI :: string
  Info :: OpenAPIInfo
  Paths :: "(string \<times> PathItem) list"
  XErrors :: "ErrorInfo option"

text \<open>\<open>supportedTypes\<close> of \<open>NewOpenAPIGenerator\<close>; a missing key reads as the empty string.\<close>

definition supportedTypes :: "(string \<times> string) list" where
  "supportedTypes =
     [(''string'', ''string''), (''number'', ''number''), (''boolean'', ''boolean''),
      (''object'', ''object''), (''array'', ''array''), (''enum'', ''string'')]"

definition lookup_string :: "(string \<times> string) list \<Rightarrow> string \<Rightarrow> string" where
  "lookup_string m k = (case map_of m k of Some v \<Rightarrow> v | None \<Rightarrow> [])"

subsection \<open>cleanText\<close>

lemma ReplaceAll_length_le:
  "length new \<le> length old \<Longrightarrow> length (ReplaceAll s old new) \<le> length s"
proof (induction s old new rule: ReplaceAll.induct)
  case (1 old new)
  then show ?case by simp
next
  case (2 c cs old new)
  show ?case
  proof (cases "old \<noteq> [] \<and> HasPrefix (c # cs) old")
    case True
    then have le: "length old \<le> length (c # cs)"
      by (simp add: HasPrefix_def)
    have "length (ReplaceAll (drop (length old) (c # cs)) old new)
            \<le> length (drop (length old) (c # cs))"
      using 2 True by simp
    then have "length (ReplaceAll (c # cs) old new)
            \<le> length new + (length (c # cs) - length old)"
      using True by simp
    with le 2(3) show ?thesis by arith
  next
    case False
    then show ?thesis using 2 by auto
  qed
qed

lemma ReplaceAll_length_less:
  "length new < length old \<Longrightarrow> Contains s old
     \<Longrightarrow> length (ReplaceAll s old new) < length s"
proof (induction s old new rule: ReplaceAll.induct)
  case (1 old new)
  then show ?case by simp
next
  case (2 c cs old new)
  have ne: "old \<noteq> []" using 2(3) by auto
  show ?case
  proof (cases "HasPrefix (c # cs) old")
    case True
    then have le: "length old \<le> length (c # cs)"
      by (simp add: HasPrefix_def)
    have "length (ReplaceAll (drop (length old) (c # cs)) old new)
            \<le> length (drop (length old) (c # cs))"
      using 2(3) by (intro ReplaceAll_length_le) simp
    then have "length (ReplaceAll (c # cs) old new)
            \<le> length new + (length (c # cs) - length old)"
      using True ne by simp
    with le 2(3) show ?thesis by arith
  next
    case False
    then have "Contains cs old" using 2(4) by simp
    then have "length (ReplaceAll cs old new) < length cs"
      using 2(2) 2(3) False by simp
    then show ?thesis using False by simp
  qed
qed

text \<open>The loop \<open>for strings.Contains(cleaned, "  ") { cleaned = ReplaceAll(...) }\<close>.\<close>

function collapse_spaces :: "string \<Rightarrow> string" where
  "collapse_spaces cleaned =
     (if Contains cleaned ''  '' then collapse_spaces (ReplaceAll cleaned ''  '' '' '')
      else cleaned)"
  by pat_completeness auto
termination
  by (relation "measure length") (auto intro: ReplaceAll_length_less)

declare collapse_spaces.simps [simp del]

definition cleanText :: "string \<Rightarrow> string" where
  "cleanText text =
     (let cleaned = ReplaceAll text [CHR 0x0A] '' '';
          cleaned = ReplaceAll cleaned [CHR 0x0D] '' '';
          cleaned = ReplaceAll cleaned [CHR 0x09] '' '';
          cleaned = collapse_spaces cleaned
      in TrimSpace cleaned)"


subsection \<open>Schemas of parameters\<close>

definition word_format_ru :: string where
  \<comment> \<open>the UTF-8 bytes of the Russian word for "format", as in the source\<close>
  "word_format_ru =
     [CHR 0xD1, CHR 0x84, CHR 0xD0, CHR 0xBE, CHR 0xD1, CHR 0x80,
      CHR 0xD0, CHR 0xBC, CHR 0xD0, CHR 0xB0, CHR 0xD1, CHR 0x82]"

text \<open>
  \<open>generateParameterSchema\<close>. The source assigns \<open>Items\<close>, \<open>Format\<close>, \<open>Enum\<close> and
  \<open>Example\<close> one after the other to a schema that starts with \<open>Type\<close> and
  \<open>Description\<close>; the model computes the fields in the same order and builds the schema
  at the end.
\<close>

definition generateParameterSchema :: "(string \<Rightarrow> string) \<Rightarrow> Parameter \<Rightarrow> Schema" where
  "generateParameterSchema lower param =
     (let ty = lookup_string supportedTypes (p_Type param);
          description = cleanText (p_Description param);
          items =
            (if p_Type param = ''array'' then
               (let itemType =
                      (if p_ArrayItemType param = [] then ''string''
                       else p_ArrayItemType param);
                    itemExample =
                      (if itemType = ''string'' then AnyString ''example_string''
                       else if itemType = ''number'' then AnyInt 123
                       else if itemType = ''boolean'' then AnyBool True
                       else AnyNil)
                in Some (Schema itemType [] [] [] itemExample [] [] None))
             else None);
          (format, enum, example) =
            (if p_AllowedValues param \<noteq> [] then
               (if Contains (lower (p_AllowedValues param)) word_format_ru
                   \<or> Contains (lower (p_AllowedValues param)) ''format''
                then (p_AllowedValues param, [], AnyNil)
                else
                  (let enumValues = Split (p_AllowedValues param) (CHR '','') in
                   if length enumValues > 1 then
                     (let enum = map (\<lambda>val. AnyString (TrimSpace val)) enumValues
                      in ([], enum, (case enum of [] \<Rightarrow> AnyNil | v # _ \<Rightarrow> v)))
                   else ([], [], AnyNil)))
             else ([], [], AnyNil));
          example =
            (if example = AnyNil then
               (if p_Type param = ''string'' then AnyString ''example_string''
                else if p_Type param = ''number'' then AnyInt 123
                else if p_Type param = ''boolean'' then AnyBool True
                else if p_Type param = ''array'' then AnyEmptySlice
                else AnyNil)
             else example)
      in Schema ty [] [] description example enum format items)"

subsection \<open>Responses\<close>

definition is_digit :: "char \<Rightarrow> bool" where
  "is_digit c \<longleftrightarrow> (48::nat) \<le> of_char c \<and> of_char c \<le> (57::nat)"

text \<open>
  \<open>isValidHTTPStatusCode\<close>. \<open>len(code)\<close> counts bytes; the loop ranges over runes, and a
  rune decoded from bytes that are not ASCII is never an ASCII digit, so the loop accepts
  exactly the strings whose bytes are all digits.
\<close>

definition isValidHTTPStatusCode :: "string \<Rightarrow> bool" where
  "isValidHTTPStatusCode code =
     (if length code \<noteq> 3 then False
      else if (of_char (code ! 0) :: nat) < 49 \<or> (of_char (code ! 0) :: nat) > 53 then False
      else list_all is_digit code)"

definition generateErrorResponseSchema :: Schema where
  "generateErrorResponseSchema =
     (let properties = [];
          properties = AList.update ''jsonrpc'' (Schema ''string'' [] [] [] AnyNil [] [] None) properties;
          properties = AList.update ''id'' (Schema ''number'' [] [] [] AnyNil [] [] None) properties;
          errorProperties = [];
          errorProperties = AList.update ''code'' (Schema ''number'' [] [] [] AnyNil [] [] None) errorProperties;
          errorProperties = AList.update ''message'' (Schema ''string'' [] [] [] AnyNil [] [] None) errorProperties;
          errorProperties = AList.update ''data'' (Schema ''object'' [] [] [] AnyNil [] [] None) errorProperties;
          properties = AList.update ''error'' (Schema ''object'' errorProperties [] [] AnyNil [] [] None) properties
      in Schema ''object'' properties [] [] AnyNil [] [] None)"

text \<open>
  The loop over a parameter map that both \<open>generateRequestBody\<close> and
  \<open>generateSuccessResponseSchema\<close> run: it fills a properties map and appends the names
  of the required parameters to a list.
\<close>

definition params_loop ::
  "(string \<Rightarrow> string) \<Rightarrow> (string \<times> Parameter) list
     \<Rightarrow> (string \<times> Schema) list \<times> string list" where
  "params_loop lower params =
     fold (\<lambda>(name, param) (props, required).
             (AList.update name (generateParameterSchema lower param) props,
              if p_Required param then required @ [name] else required))
       params ([], [])"

definition generateSuccessResponseSchema :: "(string \<Rightarrow> string) \<Rightarrow> APIData \<Rightarrow> Schema" where
  "generateSuccessResponseSchema lower apiData =
     (let properties = [];
          properties = AList.update ''jsonrpc''
            (Schema ''string'' [] [] ''JSON-RPC version'' (AnyString ''2.0'') [] [] None) properties;
          properties = AList.update ''id''
            (Schema ''number'' [] [] ''Request identifier'' AnyNil [] [] None) properties;
          resultProperties = [];
          resultProperties =
            (if length (a_ResponseParams apiData) > 0 then
               (let (dataProperties, dataRequired) = params_loop lower (a_ResponseParams apiData)
                in AList.update ''data''
                     (Schema ''object'' dataProperties dataRequired [] AnyNil [] [] None)
                     resultProperties)
             else AList.update ''data'' (Schema ''object'' [] [] [] AnyNil [] [] None)
                    resultProperties);
          resultProperties = AList.update ''metadata''
            (Schema ''object'' [] [] ''Response metadata'' AnyNil [] [] None) resultProperties;
          properties = AList.update ''result''
            (Schema ''object'' resultProperties [''data'', ''metadata''] [] AnyNil [] [] None)
            properties
      in Schema ''object'' properties [''jsonrpc'', ''id'', ''result''] [] AnyNil [] [] None)"

definition error_response :: "string \<Rightarrow> Response" where
  \<comment> \<open>the literal \<open>Response{Description: d, Content: {"application/json": error schema}}\<close>\<close>
  "error_response d =
     \<lparr>r_Description = d,
      r_Content = [(''application/json'', \<lparr>mt_Schema = generateErrorResponseSchema\<rparr>)]\<rparr>"

definition generateResponses :: "(string \<Rightarrow> string) \<Rightarrow> APIData \<Rightarrow> (string \<times> Response) list" where
  "generateResponses lower apiData =
     (let responses = [];
          successResponse =
            \<lparr>r_Description = ''Successful response'',
             r_Content = [(''application/json'',
                           \<lparr>mt_Schema = generateSuccessResponseSchema lower apiData\<rparr>)]\<rparr>;
          responses = AList.update ''200'' successResponse responses;
          errorResponse = error_response ''Error response'';
          responses = AList.update ''400'' errorResponse responses
      in (case a_ErrorInfo apiData of
            None \<Rightarrow> responses
          | Some errorInfo \<Rightarrow>
              fold (\<lambda>err responses.
                      if e_Code err \<noteq> [] \<and> isValidHTTPStatusCode (e_Code err)
                      then AList.update (e_Code err) (error_response (e_Description err)) responses
                      else responses)
                (Errors errorInfo) responses))"


subsection \<open>Request body, operation and document\<close>

text \<open>
  \<open>generateRequestBody\<close>, \<open>generateDescription\<close> and \<open>generateOperation\<close> read fields of
  \<open>apiData.MethodInfo\<close>; on a \<open>nil\<close> pointer Go panics, which is the result
  \<open>Inl NilDereference\<close> of the model.
\<close>

datatype panic = NilDereference

definition generateRequestBody ::
  "(string \<Rightarrow> string) \<Rightarrow> APIData \<Rightarrow> panic + RequestBody" where
  "generateRequestBody lower apiData =
     (case a_MethodInfo apiData of
        None \<Rightarrow> Inl NilDereference
      | Some methodInfo \<Rightarrow>
         (let properties = [];
              required = [];
              properties = AList.update ''jsonrpc''
                (Schema ''string'' [] [] ''JSON-RPC version'' (AnyString ''2.0'') [] [] None)
                properties;
              required = required @ [''jsonrpc''];
              properties = AList.update ''id''
                (Schema ''number'' [] [] ''Request identifier'' AnyNil [] [] None) properties;
              required = required @ [''id''];
              properties = AList.update ''method''
                (Schema ''string'' [] [] ''Method name'' (AnyString (m_Name methodInfo))
                   [] [] None) properties;
              required = required @ [''method''];
              (paramsProperties, paramsRequired) =
                params_loop lower (a_RequestParams apiData);
              properties = AList.update ''params''
                (Schema ''object'' paramsProperties paramsRequired [] AnyNil [] [] None)
                properties;
              required = required @ [''params'']
          in Inr \<lparr>rb_Required = True,
                  rb_Content =
                    [(''application/json'',
                      \<lparr>mt_Schema =
                         Schema ''object'' properties required [] AnyNil [] [] None\<rparr>)]\<rparr>))"

definition generateDescription :: "APIData \<Rightarrow> panic + string" where
  "generateDescription apiData =
     (case a_MethodInfo apiData of
        None \<Rightarrow> Inl NilDereference
      | Some methodInfo \<Rightarrow>
         (let parts = [];
              parts = (if m_Description methodInfo \<noteq> []
                       then parts @ [cleanText (m_Description methodInfo)] else parts);
              parts =
                (if length (a_RequestParams apiData) > 0 then
                   fold (\<lambda>(name, param) parts.
                           parts @ [''- `'' @ name @ ''` ('' @ p_Type param @ '', ''
                                    @ (if p_Required param then ''required'' else ''optional'')
                                    @ ''): '' @ cleanText (p_Description param)])
                     (a_RequestParams apiData)
                     (parts @ [''**Request Parameters:** ''
                               @ decimal (length (a_RequestParams apiData))])
                 else parts);
              parts =
                (if length (a_ResponseParams apiData) > 0 then
                   fold (\<lambda>(name, param) parts.
                           parts @ [''- `'' @ name @ ''` ('' @ p_Type param @ ''): ''
                                    @ cleanText (p_Description param)])
                     (a_ResponseParams apiData)
                     (parts @ [''**Response Parameters:** ''
                               @ decimal (length (a_ResponseParams apiData))])
                 else parts)
          in Inr (Join parts [CHR 0x0A, CHR 0x0A])))"

definition generateOperation ::
  "(string \<Rightarrow> string) \<Rightarrow> APIData \<Rightarrow> panic + Operation" where
  "generateOperation lower apiData =
     (case a_MethodInfo apiData of
        None \<Rightarrow> Inl NilDereference
      | Some methodInfo \<Rightarrow>
         (case generateDescription apiData of
            Inl p \<Rightarrow> Inl p
          | Inr description \<Rightarrow>
             (let operation =
                    \<lparr>o_Summary = m_Title methodInfo,
                     o_Description = description,
                     o_RequestBody = None,
                     o_Responses = generateResponses lower apiData,
                     o_Tags = [''novofon'']\<rparr>
              in if length (a_RequestParams apiData) > 0 then
                   (case generateRequestBody lower apiData of
                      Inl p \<Rightarrow> Inl p
                    | Inr requestBody \<Rightarrow>
                        Inr (operation\<lparr>o_RequestBody := Some requestBody\<rparr>))
                 else Inr operation)))"

text \<open>
  \<open>GenerateSpec\<close> returns the Go pair \<open>(*OpenAPISpec, error)\<close>: a document or \<open>nil\<close>, and
  an error message or \<open>nil\<close>; a panic below it would be the result \<open>Inl\<close>.
\<close>

definition GenerateSpec ::
  "(string \<Rightarrow> string) \<Rightarrow> APIData option
     \<Rightarrow> panic + (OpenAPISpec option \<times> string option)" where
  "GenerateSpec lower apiDataPtr =
     (case apiDataPtr of
        None \<Rightarrow> Inr (None, Some ''invalid API data: method info is required'')
      | Some apiData \<Rightarrow>
         (case a_MethodInfo apiData of
            None \<Rightarrow> Inr (None, Some ''invalid API data: method info is required'')
          | Some methodInfo \<Rightarrow>
             (let title = (if m_Title methodInfo = []
                           then ''Novofon API - '' @ m_Name methodInfo
                           else m_Title methodInfo);
                  description = (if m_Description methodInfo = []
                                 then ''API endpoint for '' @ m_Name methodInfo
                                 else m_Description methodInfo);
                  spec = \<lparr>OpenAPI = ''3.0.0'',
                          Info = \<lparr>i_Title = title, i_Version = ''1.0.0'',
                                   i_Description = description\<rparr>,
                          Paths = [],
                          XErrors = None\<rparr>;
                  spec = (case a_ErrorInfo apiData of
                            Some errorInfo \<Rightarrow>
                              if length (Errors errorInfo) > 0
                              then spec\<lparr>XErrors := Some errorInfo\<rparr> else spec
                          | None \<Rightarrow> spec);
                  path = ''/'' @ m_Name methodInfo
              in (case generateOperation lower apiData of
                    Inl p \<Rightarrow> Inl p
                  | Inr operation \<Rightarrow>
                     (let pathItem = \<lparr>Post = None, Get = None, Put = None, Delete = None\<rparr>;
                          pathItem =
                            (if lower (m_HTTPMethod methodInfo) = ''get''
                               then pathItem\<lparr>Get := Some operation\<rparr>
                             else if lower (m_HTTPMethod methodInfo) = ''post''
                               then pathItem\<lparr>Post := Some operation\<rparr>
                             else if lower (m_HTTPMethod methodInfo) = ''put''
                               then pathItem\<lparr>Put := Some operation\<rparr>
                             else if lower (m_HTTPMethod methodInfo) = ''delete''
                               then pathItem\<lparr>Delete := Some operation\<rparr>
                             else pathItem\<lparr>Post := Some operation\<rparr>);
                          spec = spec\<lparr>Paths := AList.update path pathItem (Paths spec)\<rparr>
                      in Inr (Some spec, None))))))"


section \<open>Bundling (createBundledSpec of package main)\<close>

text \<open>
  A value that \<open>yaml.Unmarshal\<close> stores in an \<open>interface{}\<close>. A mapping whose keys are all
  strings is a \<open>map[string]interface{}\<close> (\<open>YMap\<close>); a mapping with another key is a
  \<open>map[interface{}]interface{}\<close> (\<open>YAnyMap\<close>), which fails every type assertion of the
  source, as the scalars do.
\<close>

datatype yaml =
  YNull | YBool bool | YInt int | YString string | YSeq "yaml list"
| YMap "(string \<times> yaml) list" | YAnyMap "(yaml \<times> yaml) list"

type_synonym yaml_map = "(string \<times> yaml) list"

text \<open>
  \<open>bundledSpec\<close> is a \<open>map[string]interface{}\<close> whose entries \<open>openapi\<close>, \<open>info\<close>, \<open>paths\<close>,
  \<open>components\<close> and \<open>x-errors\<close> are created by \<open>createBundledSpec\<close> itself and by nothing
  else, each with a fixed dynamic type; the model keeps them as the fields of a record.
  \<open>b_components\<close> and \<open>b_xerrors\<close> are \<open>None\<close> as long as the key is absent;
  \<open>b_xerrors\<close> holds the list under the key \<open>errors\<close> of the \<open>x-errors\<close> map.
\<close>

record bundled =
  b_title :: string
  b_description :: string
  b_paths :: yaml_map
  b_components :: "(string \<times> yaml_map) list option"
  b_xerrors :: "yaml list option"

definition bundled_init :: "string \<Rightarrow> string \<Rightarrow> bundled" where
  "bundled_init title description =
     \<lparr>b_title = title, b_description = description, b_paths = [],
      b_components = None, b_xerrors = None\<rparr>"

text \<open>The map that \<open>yaml.Marshal\<close> receives.\<close>

definition bundled_yaml :: "bundled \<Rightarrow> yaml_map" where
  "bundled_yaml b =
     [(''openapi'', YString ''3.0.0''),
      (''info'', YMap [(''title'', YString (b_title b)), (''version'', YString ''1.0.0''),
                       (''description'', YString (b_description b))]),
      (''paths'', YMap (b_paths b))]
     @ (case b_components b of
          None \<Rightarrow> []
        | Some cs \<Rightarrow> [(''components'', YMap (map (\<lambda>(t, m). (t, YMap m)) cs))])
     @ (case b_xerrors b of
          None \<Rightarrow> []
        | Some es \<Rightarrow> [(''x-errors'', YMap [(''errors'', YSeq es)])])"

text \<open>"Merge paths from this spec into the bundled spec".\<close>

definition merge_paths :: "yaml_map \<Rightarrow> bundled \<Rightarrow> bundled" where
  "merge_paths spec bundledSpec =
     (case map_of spec ''paths'' of
        Some (YMap paths) \<Rightarrow>
          bundledSpec\<lparr>b_paths :=
            fold (\<lambda>(path, pathItem) bundledPaths.
                    if map_of bundledPaths path \<noteq> None then bundledPaths
                    else AList.update path pathItem bundledPaths)
              paths (b_paths bundledSpec)\<rparr>
      | _ \<Rightarrow> bundledSpec)"

text \<open>"Merge components if they exist".\<close>

definition merge_components :: "yaml_map \<Rightarrow> bundled \<Rightarrow> bundled" where
  "merge_components spec bundledSpec =
     (case map_of spec ''components'' of
        Some (YMap components) \<Rightarrow>
          (let bundledComponents =
                 (case b_components bundledSpec of None \<Rightarrow> [] | Some bc \<Rightarrow> bc)
           in bundledSpec\<lparr>b_components := Some
                (fold (\<lambda>(componentType, componentData) bundledComponents.
                         (let targetComponents =
                                (case map_of bundledComponents componentType of
                                   None \<Rightarrow> [] | Some tc \<Rightarrow> tc);
                              targetComponents =
                                (case componentData of
                                   YMap sourceComponents \<Rightarrow>
                                     fold (\<lambda>(name, component) targetComponents.
                                             if map_of targetComponents name = None
                                             then AList.update name component targetComponents
                                             else targetComponents)
                                       sourceComponents targetComponents
                                 | _ \<Rightarrow> targetComponents)
                          in AList.update componentType targetComponents bundledComponents))
                   components bundledComponents)\<rparr>)
      | _ \<Rightarrow> bundledSpec)"

text \<open>
  "Merge x-errors if they exist". \<open>bundledErrorList\<close> is read once, before the loop, and
  every iteration stores \<open>append(bundledErrorList, sourceError)\<close>.
\<close>

definition merge_xerrors :: "yaml_map \<Rightarrow> bundled \<Rightarrow> bundled" where
  "merge_xerrors spec bundledSpec =
     (case map_of spec ''x-errors'' of
        None \<Rightarrow> bundledSpec
      | Some xerrors \<Rightarrow>
          (let bundledSpec =
                 (if b_xerrors bundledSpec = None then bundledSpec\<lparr>b_xerrors := Some []\<rparr>
                  else bundledSpec)
           in (case xerrors of
                 YMap sourceErrors \<Rightarrow>
                   (case map_of sourceErrors ''errors'' of
                      Some (YSeq sourceErrorList) \<Rightarrow>
                        (let bundledErrorList =
                               (case b_xerrors bundledSpec of None \<Rightarrow> [] | Some l \<Rightarrow> l)
                         in bundledSpec\<lparr>b_xerrors :=
                              fold (\<lambda>sourceError errors.
                                      Some (bundledErrorList @ [sourceError]))
                                sourceErrorList (b_xerrors bundledSpec)\<rparr>)
                    | _ \<Rightarrow> bundledSpec)
               | _ \<Rightarrow> bundledSpec)))"

definition merge_spec :: "yaml_map \<Rightarrow> bundled \<Rightarrow> bundled" where
  "merge_spec spec bundledSpec =
     merge_xerrors spec (merge_components spec (merge_paths spec bundledSpec))"

text \<open>
  The loop over the input files. \<open>os.ReadFile\<close> and \<open>yaml.Unmarshal\<close> are parameters; each
  returns an error (\<open>Inl\<close>) or its result. A file that cannot be read or parsed is skipped.
\<close>

definition bundle_files ::
  "(string \<Rightarrow> string + string) \<Rightarrow> (string \<Rightarrow> string + yaml_map)
     \<Rightarrow> string list \<Rightarrow> bundled \<Rightarrow> bundled" where
  "bundle_files ReadFile Unmarshal inputFiles bundledSpec =
     fold (\<lambda>inputFile bundledSpec.
             (case ReadFile inputFile of
                Inl err \<Rightarrow> bundledSpec
              | Inr content \<Rightarrow>
                 (case Unmarshal content of
                    Inl err \<Rightarrow> bundledSpec
                  | Inr spec \<Rightarrow> merge_spec spec bundledSpec)))
       inputFiles bundledSpec"

text \<open>
  \<open>createBundledSpec\<close>: the returned error, and the file it writes if any (name and
  content). \<open>yaml.Marshal\<close> and \<open>os.WriteFile\<close> are parameters.
\<close>

definition createBundledSpec ::
  "(string \<Rightarrow> string + string) \<Rightarrow> (string \<Rightarrow> string + yaml_map)
     \<Rightarrow> (yaml_map \<Rightarrow> string + string) \<Rightarrow> (string \<Rightarrow> string \<Rightarrow> string option)
     \<Rightarrow> string list \<Rightarrow> string \<Rightarrow> string \<Rightarrow> string
     \<Rightarrow> string option \<times> (string \<times> string) option" where
  "createBundledSpec ReadFile Unmarshal Marshal WriteFile inputFiles outputFile title description =
     (let bundledSpec =
            bundle_files ReadFile Unmarshal inputFiles (bundled_init title description)
      in (case Marshal (bundled_yaml bundledSpec) of
            Inl err \<Rightarrow> (Some (''failed to marshal bundled spec: '' @ err), None)
          | Inr bundledContent \<Rightarrow>
             (case WriteFile outputFile bundledContent of
                Some err \<Rightarrow> (Some (''failed to write bundled spec: '' @ err), None)
              | None \<Rightarrow> (None, Some (outputFile, bundledContent)))))"


section \<open>HTML documents and selections (goquery)\<close>

text \<open>
  The tree that \<open>goquery.NewDocumentFromReader\<close> returns: the document node, element
  nodes with their tag name, text nodes with their data, and the nodes without text or
  children (comments, doctype). A node is addressed by its path from the root (the
  indices of the children to follow); a goquery selection is a list of such paths, and
  the selection of the document is \<open>[[]]\<close>.
\<close>

datatype node =
  DocumentNode "node list" | ElementNode string "node list" | TextNode string | OtherNode

type_synonym path = "nat list"
type_synonym selection = "path list"

fun children :: "node \<Rightarrow> node list" where
  "children (DocumentNode cs) = cs"
| "children (ElementNode t cs) = cs"
| "children (TextNode d) = []"
| "children OtherNode = []"

fun is_element :: "node \<Rightarrow> bool" where
  "is_element (ElementNode t cs) = True"
| "is_element n = False"

fun node_at :: "node \<Rightarrow> path \<Rightarrow> node option" where
  "node_at n [] = Some n"
| "node_at n (i # p) =
     (if i < length (children n) then node_at (children n ! i) p else None)"

text \<open>The text of a node: the data of the text nodes below it, in document order.\<close>

fun node_text :: "node \<Rightarrow> string" where
  "node_text (TextNode d) = d"
| "node_text (ElementNode t cs) = concat (map node_text cs)"
| "node_text (DocumentNode cs) = concat (map node_text cs)"
| "node_text OtherNode = []"

text \<open>
  The two shapes of selector in the source: a tag name (\<open>"td"\<close>), and a tag name with
  \<open>:contains('v')\<close>. The latter matches an element whose text, in lower case, contains
  \<open>v\<close> in lower case.
\<close>

datatype selector = Tag string | TagContains string string

fun matches :: "(string \<Rightarrow> string) \<Rightarrow> selector \<Rightarrow> node \<Rightarrow> bool" where
  "matches lower (Tag t) (ElementNode t' cs) = (t' = t)"
| "matches lower (TagContains t v) (ElementNode t' cs) =
     (t' = t \<and> Contains (lower (node_text (ElementNode t' cs))) (lower v))"
| "matches lower s n = False"

text \<open>The matching nodes of a subtree in document order, the root of the subtree first.\<close>

fun matchAll :: "(node \<Rightarrow> bool) \<Rightarrow> node \<Rightarrow> path list"
  and matchAll_children :: "(node \<Rightarrow> bool) \<Rightarrow> nat \<Rightarrow> node list \<Rightarrow> path list" where
  "matchAll m (ElementNode t cs) =
     (if m (ElementNode t cs) then [[]] else []) @ matchAll_children m 0 cs"
| "matchAll m (DocumentNode cs) =
     (if m (DocumentNode cs) then [[]] else []) @ matchAll_children m 0 cs"
| "matchAll m (TextNode d) = (if m (TextNode d) then [[]] else [])"
| "matchAll m OtherNode = (if m OtherNode then [[]] else [])"
| "matchAll_children m i [] = []"
| "matchAll_children m i (c # cs) =
     map ((#) i) (matchAll m c) @ matchAll_children m (Suc i) cs"

definition uniq :: "'a list \<Rightarrow> 'a list" where
  \<comment> \<open>drops the later copies of an element\<close>
  "uniq xs = rev (remdups (rev xs))"

text \<open>\<open>Selection.Find\<close>: the matches among the descendants of every node of the selection.\<close>

definition Find :: "(string \<Rightarrow> string) \<Rightarrow> node \<Rightarrow> selection \<Rightarrow> selector \<Rightarrow> selection" where
  "Find lower doc sel s =
     uniq (concat (map (\<lambda>p.
       (case node_at doc p of
          None \<Rightarrow> []
        | Some n \<Rightarrow>
            concat (map (\<lambda>(i, c).
              if is_element c then map (\<lambda>q. p @ i # q) (matchAll (matches lower s) c)
              else [])
              (enumerate 0 (children n))))) sel))"

text \<open>\<open>Selection.Next\<close>: the next sibling that is an element, of every node.\<close>

definition next_sibling :: "node \<Rightarrow> path \<Rightarrow> path option" where
  "next_sibling doc p =
     (if p = [] then None
      else (case node_at doc (butlast p) of
              None \<Rightarrow> None
            | Some parent \<Rightarrow>
                (case find (\<lambda>j. is_element (children parent ! j))
                        [Suc (last p) ..< length (children parent)] of
                   None \<Rightarrow> None
                 | Some j \<Rightarrow> Some (butlast p @ [j]))))"

definition Next :: "node \<Rightarrow> selection \<Rightarrow> selection" where
  "Next doc sel = uniq (List.map_filter (next_sibling doc) sel)"

text \<open>\<open>Selection.Parent\<close>: the parent of every node, where it is an element.\<close>

definition parent_element :: "node \<Rightarrow> path \<Rightarrow> path option" where
  "parent_element doc p =
     (if p = [] then None
      else (case node_at doc (butlast p) of
              Some (ElementNode t cs) \<Rightarrow> Some (butlast p)
            | _ \<Rightarrow> None))"

definition Parent :: "node \<Rightarrow> selection \<Rightarrow> selection" where
  "Parent doc sel = uniq (List.map_filter (parent_element doc) sel)"

definition Is :: "(string \<Rightarrow> string) \<Rightarrow> node \<Rightarrow> selection \<Rightarrow> selector \<Rightarrow> bool" where
  "Is lower doc sel s =
     list_ex (\<lambda>p. case node_at doc p of None \<Rightarrow> False | Some n \<Rightarrow> matches lower s n) sel"

definition Text :: "node \<Rightarrow> selection \<Rightarrow> string" where
  "Text doc sel =
     concat (map (\<lambda>p. case node_at doc p of None \<Rightarrow> [] | Some n \<Rightarrow> node_text n) sel)"

definition Eq :: "selection \<Rightarrow> nat \<Rightarrow> selection" where
  "Eq sel i = (if i < length sel then [sel ! i] else [])"

definition First :: "selection \<Rightarrow> selection" where
  "First sel = Eq sel 0"


section \<open>Extraction (package parse)\<close>

text \<open>The Russian marker texts of the source, as UTF-8 bytes, with their meaning.\<close>

definition marker_method :: string where
  \<comment> \<open>"Method"\<close>
  "marker_method =
     [CHR 0xD0, CHR 0x9C, CHR 0xD0, CHR 0xB5, CHR 0xD1, CHR 0x82, CHR 0xD0, CHR 0xBE,
      CHR 0xD0, CHR 0xB4]"

definition marker_description :: string where
  \<comment> \<open>"Description"\<close>
  "marker_description =
     [CHR 0xD0, CHR 0x9E, CHR 0xD0, CHR 0xBF, CHR 0xD0, CHR 0xB8, CHR 0xD1, CHR 0x81,
      CHR 0xD0, CHR 0xB0, CHR 0xD0, CHR 0xBD, CHR 0xD0, CHR 0xB8, CHR 0xD0, CHR 0xB5]"

definition marker_request_params :: string where
  \<comment> \<open>"Request parameters"\<close>
  "marker_request_params =
     [CHR 0xD0, CHR 0x9F, CHR 0xD0, CHR 0xB0, CHR 0xD1, CHR 0x80, CHR 0xD0, CHR 0xB0,
      CHR 0xD0, CHR 0xBC, CHR 0xD0, CHR 0xB5, CHR 0xD1, CHR 0x82, CHR 0xD1, CHR 0x80,
      CHR 0xD1, CHR 0x8B, CHR 0x20, CHR 0xD0, CHR 0xB7, CHR 0xD0, CHR 0xB0, CHR 0xD0,
      CHR 0xBF, CHR 0xD1, CHR 0x80, CHR 0xD0, CHR 0xBE, CHR 0xD1, CHR 0x81, CHR 0xD0,
      CHR 0xB0]"

definition marker_response_params :: string where
  \<comment> \<open>"Response parameters"\<close>
  "marker_response_params =
     [CHR 0xD0, CHR 0x9F, CHR 0xD0, CHR 0xB0, CHR 0xD1, CHR 0x80, CHR 0xD0, CHR 0xB0,
      CHR 0xD0, CHR 0xBC, CHR 0xD0, CHR 0xB5, CHR 0xD1, CHR 0x82, CHR 0xD1, CHR 0x80,
      CHR 0xD1, CHR 0x8B, CHR 0x20, CHR 0xD0, CHR 0xBE, CHR 0xD1, CHR 0x82, CHR 0xD0,
      CHR 0xB2, CHR 0xD0, CHR 0xB5, CHR 0xD1, CHR 0x82, CHR 0xD0, CHR 0xB0]"

definition marker_request_example :: string where
  \<comment> \<open>"Request example"\<close>
  "marker_request_example =
     [CHR 0xD0, CHR 0x9F, CHR 0xD1, CHR 0x80, CHR 0xD0, CHR 0xB8, CHR 0xD0, CHR 0xBC,
      CHR 0xD0, CHR 0xB5, CHR 0xD1, CHR 0x80, CHR 0x20, CHR 0xD0, CHR 0xB7, CHR 0xD0,
      CHR 0xB0, CHR 0xD0, CHR 0xBF, CHR 0xD1, CHR 0x80, CHR 0xD0, CHR 0xBE, CHR 0xD1,
      CHR 0x81, CHR 0xD0, CHR 0xB0]"

definition marker_response_example :: string where
  \<comment> \<open>"Response example"\<close>
  "marker_response_example =
     [CHR 0xD0, CHR 0x9F, CHR 0xD1, CHR 0x80, CHR 0xD0, CHR 0xB8, CHR 0xD0, CHR 0xBC,
      CHR 0xD0, CHR 0xB5, CHR 0xD1, CHR 0x80, CHR 0x20, CHR 0xD0, CHR 0xBE, CHR 0xD1,
      CHR 0x82, CHR 0xD0, CHR 0xB2, CHR 0xD0, CHR 0xB5, CHR 0xD1, CHR 0x82, CHR 0xD0,
      CHR 0xB0]"

definition marker_errors :: string where
  \<comment> \<open>"List of returned errors"\<close>
  "marker_errors =
     [CHR 0xD0, CHR 0xA1, CHR 0xD0, CHR 0xBF, CHR 0xD0, CHR 0xB8, CHR 0xD1, CHR 0x81,
      CHR 0xD0, CHR 0xBE, CHR 0xD0, CHR 0xBA, CHR 0x20, CHR 0xD0, CHR 0xB2, CHR 0xD0,
      CHR 0xBE, CHR 0xD0, CHR 0xB7, CHR 0xD0, CHR 0xB2, CHR 0xD1, CHR 0x80, CHR 0xD0,
      CHR 0xB0, CHR 0xD1, CHR 0x89, CHR 0xD0, CHR 0xB0, CHR 0xD0, CHR 0xB5, CHR 0xD0,
      CHR 0xBC, CHR 0xD1, CHR 0x8B, CHR 0xD1, CHR 0x85, CHR 0x20, CHR 0xD0, CHR 0xBE,
      CHR 0xD1, CHR 0x88, CHR 0xD0, CHR 0xB8, CHR 0xD0, CHR 0xB1, CHR 0xD0, CHR 0xBE,
      CHR 0xD0, CHR 0xBA]"

definition word_yes :: string where
  \<comment> \<open>"yes"\<close>
  "word_yes =
     [CHR 0xD0, CHR 0xB4, CHR 0xD0, CHR 0xB0]"

definition determineHTTPMethod :: "string \<Rightarrow> string" where
  "determineHTTPMethod methodName =
     (if HasPrefix methodName ''get.'' then ''get''
      else if HasPrefix methodName ''create.'' then ''post''
      else if HasPrefix methodName ''update.'' then ''put''
      else if HasPrefix methodName ''delete.'' then ''delete''
      else ''post'')"

text \<open>
  The functions that return a Go pair \<open>(value, error)\<close> return a pair whose second
  component is the error, \<open>None\<close> for \<open>nil\<close>.
\<close>

definition ExtractMethodInfo ::
  "(string \<Rightarrow> string) \<Rightarrow> node \<Rightarrow> MethodInfo option \<times> string option" where
  "ExtractMethodInfo lower doc =
     (let methodCell = Find lower doc [[]] (TagContains ''th'' marker_method);
          name =
            (if length methodCell > 0 then
               (let parentRow = Parent doc methodCell;
                    nextCell = Next doc (Find lower doc parentRow (Tag ''th''));
                    code = Find lower doc nextCell (Tag ''code'')
                in if length code > 0 then Trim (Text doc code) [CHR 0x22, CHR 0x27] else [])
             else [])
      in if name = [] then (None, Some ''method name not found'')
         else
           (let title = First (Find lower doc [[]] (Tag ''h1''));
                titleText = (if length title > 0 then TrimSpace (Text doc title) else []);
                descCell = Find lower doc [[]] (TagContains ''td'' marker_description);
                description =
                  (if length descCell > 0 then
                     (let nextCell = Next doc descCell
                      in if length nextCell > 0 then TrimSpace (Text doc nextCell) else [])
                   else [])
            in (Some \<lparr>m_Name = name, m_Title = titleText, m_Description = description,
                       m_AccessLevel = [], m_HTTPMethod = determineHTTPMethod name\<rparr>,
                None)))"

definition parseParameterRow ::
  "(string \<Rightarrow> string) \<Rightarrow> node \<Rightarrow> selection \<Rightarrow> bool \<Rightarrow> Parameter option" where
  "parseParameterRow lower doc cells isRequest =
     (if length cells < 3 then None
      else
        (let nameCell = Eq cells 0;
             nameCode = Find lower doc nameCell (Tag ''code'');
             name = (if length nameCode > 0 then TrimSpace (Text doc nameCode)
                     else TrimSpace (Text doc nameCell))
         in if name = [] then None
            else
              (let ty = TrimSpace (Text doc (Eq cells 1));
                   required =
                     (if length cells \<ge> 3
                      then lower (TrimSpace (Text doc (Eq cells 2))) = word_yes
                      else False);
                   (allowedValues, description) =
                     (if isRequest \<and> length cells \<ge> 5 then
                        (TrimSpace (Text doc (Eq cells 3)), TrimSpace (Text doc (Eq cells 4)))
                      else if \<not> isRequest \<and> length cells \<ge> 4 then
                        ([], TrimSpace (Text doc (Eq cells 3)))
                      else if length cells \<ge> 4 then
                        ([], TrimSpace (Text doc (Eq cells (length cells - 1))))
                      else ([], []))
               in Some \<lparr>p_Name = name, p_Type = ty, p_Required = required,
                         p_Description = description, p_AllowedValues = allowedValues,
                         p_ArrayItemType = []\<rparr>)))"

text \<open>
  The loop \<open>table.Find("tr").Each(...)\<close> of the two parameter extractors: the row with
  index 0 is skipped, and a row with at least \<open>minCells\<close> cells whose parse is not \<open>nil\<close>
  is stored under its name.
\<close>

definition parameter_rows ::
  "(string \<Rightarrow> string) \<Rightarrow> node \<Rightarrow> selection \<Rightarrow> nat \<Rightarrow> bool
     \<Rightarrow> (string \<times> Parameter) list" where
  "parameter_rows lower doc table minCells isRequest =
     fold (\<lambda>(i, s) params.
             if i = 0 then params
             else
               (let cells = Find lower doc [s] (Tag ''td'')
                in if length cells \<ge> minCells then
                     (case parseParameterRow lower doc cells isRequest of
                        Some param \<Rightarrow> AList.update (p_Name param) param params
                      | None \<Rightarrow> params)
                   else params))
       (enumerate 0 (Find lower doc table (Tag ''tr''))) []"

definition ExtractRequestParameters ::
  "(string \<Rightarrow> string) \<Rightarrow> node \<Rightarrow> (string \<times> Parameter) list \<times> string option" where
  "ExtractRequestParameters lower doc =
     (let params = [];
          requestHeader = Find lower doc [[]] (TagContains ''h4'' marker_request_params)
      in if length requestHeader = 0 then (params, None)
         else
           (let table = Next doc requestHeader
            in if length table = 0 \<or> \<not> Is lower doc table (Tag ''table'') then (params, None)
               else (parameter_rows lower doc table 4 True, None)))"

definition ExtractResponseParameters ::
  "(string \<Rightarrow> string) \<Rightarrow> node \<Rightarrow> (string \<times> Parameter) list \<times> string option" where
  "ExtractResponseParameters lower doc =
     (let params = [];
          responseHeader = Find lower doc [[]] (TagContains ''h4'' marker_response_params)
      in if length responseHeader = 0 then (params, None)
         else
           (let table = Next doc responseHeader
            in if length table = 0 \<or> \<not> Is lower doc table (Tag ''table'') then (params, None)
               else (parameter_rows lower doc table 3 False, None)))"

text \<open>
  One JSON example of \<open>ExtractJSONExamples\<close>. \<open>json.Unmarshal\<close> into a
  \<open>map[string]interface{}\<close> is a parameter: it returns an error (\<open>Inl\<close>) or the map it
  leaves in the variable (\<open>None\<close> for the \<open>nil\<close> map that the JSON text \<open>null\<close> leaves).
  The variable is \<open>nil\<close> (\<open>None\<close>) when no code block is found.
\<close>

definition json_example ::
  "(string \<Rightarrow> string) \<Rightarrow> (string \<Rightarrow> string + (string \<times> json) list option)
     \<Rightarrow> node \<Rightarrow> string \<Rightarrow> (string \<times> json) list option" where
  "json_example lower Unmarshal doc marker =
     (let header = Find lower doc [[]] (TagContains ''h4'' marker)
      in if length header > 0 then
           (let codeBlock = Next doc header
            in if Is lower doc codeBlock (Tag ''pre'') then
                 (let code = Find lower doc codeBlock (Tag ''code'')
                  in if length code > 0 then
                       (let jsonStr = Text doc code
                        in (case Unmarshal jsonStr of
                              Inl err \<Rightarrow> Some []
                            | Inr m \<Rightarrow> m))
                     else None)
               else None)
         else None)"

definition ExtractJSONExamples ::
  "(string \<Rightarrow> string) \<Rightarrow> (string \<Rightarrow> string + (string \<times> json) list option) \<Rightarrow> node
     \<Rightarrow> (string \<times> json) list option \<times> (string \<times> json) list option \<times> string option" where
  "ExtractJSONExamples lower Unmarshal doc =
     (let requestJSON = json_example lower Unmarshal doc marker_request_example;
          responseJSON = json_example lower Unmarshal doc marker_response_example
      in (requestJSON, responseJSON, None))"

definition ExtractErrorInformation ::
  "(string \<Rightarrow> string) \<Rightarrow> node \<Rightarrow> ErrorInfo option \<times> string option" where
  "ExtractErrorInformation lower doc =
     (let errorInfo = \<lparr>Errors = []\<rparr>;
          errorHeader = Find lower doc [[]] (TagContains ''h4'' marker_errors)
      in if length errorHeader = 0 then (Some errorInfo, None)
         else
           (let table = Next doc errorHeader
            in if length table = 0 \<or> \<not> Is lower doc table (Tag ''table'')
               then (Some errorInfo, None)
               else
                 (Some (fold (\<lambda>(i, s) errorInfo.
                          if i = 0 then errorInfo
                          else
                            (let cells = Find lower doc [s] (Tag ''td'')
                             in if length cells \<ge> 3 then
                                  errorInfo\<lparr>Errors := Errors errorInfo @
                                    [\<lparr>e_Code = TrimSpace (Text doc (Eq cells 1)),
                                      e_Mnemonic = TrimSpace (Text doc (Eq cells 2)),
                                      e_Description = TrimSpace (Text doc (Eq cells 3))\<rparr>]\<rparr>
                                else errorInfo))
                    (enumerate 0 (Find lower doc table (Tag ''tr''))) errorInfo),
                  None)))"

text \<open>
  \<open>ParseHTML\<close>. \<open>goquery.NewDocumentFromReader\<close> is a parameter: it returns an error
  (\<open>Inl\<close>) or the document tree. The result is the Go pair \<open>(*APIData, error)\<close>.
\<close>

definition ParseHTML ::
  "(string \<Rightarrow> string) \<Rightarrow> (string \<Rightarrow> string + node)
     \<Rightarrow> (string \<Rightarrow> string + (string \<times> json) list option)
     \<Rightarrow> string \<Rightarrow> APIData option \<times> string option" where
  "ParseHTML lower NewDocumentFromReader Unmarshal htmlContent =
     (case NewDocumentFromReader htmlContent of
        Inl err \<Rightarrow> (None, Some (''failed to parse HTML: '' @ err))
      | Inr doc \<Rightarrow>
         (let apiData = \<lparr>a_MethodInfo = None, a_RequestParams = [], a_ResponseParams = [],
                         a_RequestJSON = None, a_ResponseJSON = None, a_ErrorInfo = None\<rparr>
          in (case ExtractMethodInfo lower doc of
                (methodInfo, Some err) \<Rightarrow>
                  (None, Some (''failed to extract method info: '' @ err))
              | (methodInfo, None) \<Rightarrow>
                 (let apiData = apiData\<lparr>a_MethodInfo := methodInfo\<rparr>
                  in (case ExtractRequestParameters lower doc of
                        (requestParams, Some err) \<Rightarrow>
                          (None, Some (''failed to extract request parameters: '' @ err))
                      | (requestParams, None) \<Rightarrow>
                         (let apiData = apiData\<lparr>a_RequestParams := requestParams\<rparr>
                          in (case ExtractResponseParameters lower doc of
                                (responseParams, Some err) \<Rightarrow>
                                  (None, Some (''failed to extract response parameters: '' @ err))
                              | (responseParams, None) \<Rightarrow>
                                 (let apiData = apiData\<lparr>a_ResponseParams := responseParams\<rparr>
                                  in (case ExtractJSONExamples lower Unmarshal doc of
                                        (requestJSON, responseJSON, Some err) \<Rightarrow>
                                          (None, Some (''failed to extract JSON examples: '' @ err))
                                      | (requestJSON, responseJSON, None) \<Rightarrow>
                                         (let apiData = apiData\<lparr>a_RequestJSON := requestJSON,
                                                                 a_ResponseJSON := responseJSON\<rparr>
                                          in (case ExtractErrorInformation lower doc of
                                                (errorInfo, Some err) \<Rightarrow>
                                                  (None, Some (''failed to extract error information: '' @ err))
                                              | (errorInfo, None) \<Rightarrow>
                                                  (Some (apiData\<lparr>a_ErrorInfo := errorInfo\<rparr>),
                                                   None))))))))))))"


section \<open>Lemmas on association lists and loops\<close>

lemma find_SomeD: "find P xs = Some x \<Longrightarrow> P x \<and> x \<in> set xs"
  by (induction xs) (auto split: if_splits)

lemma fold_cond_update_lookup:
  "map_of (fold (\<lambda>x r. if P x then AList.update (k x) (v x) r else r) xs r0) c =
     (case find (\<lambda>x. P x \<and> k x = c) (rev xs) of
        Some x \<Rightarrow> Some (v x)
      | None \<Rightarrow> map_of r0 c)"
proof (induction xs rule: rev_induct)
  case Nil
  then show ?case by simp
next
  case (snoc x xs)
  then show ?case by (simp add: update_conv')
qed

lemma fold_cond_update_distinct:
  "distinct (map fst r0) \<Longrightarrow>
   distinct (map fst (fold (\<lambda>x r. if P x then AList.update (k x) (v x) r else r) xs r0))"
  by (induction xs arbitrary: r0) (simp_all add: distinct_update)

section \<open>The responses of an operation\<close>

definition errors_of :: "APIData \<Rightarrow> Error list" where
  \<comment> \<open>the error entries of a record; none when \<open>ErrorInfo\<close> is \<open>nil\<close>\<close>
  "errors_of apiData =
     (case a_ErrorInfo apiData of None \<Rightarrow> [] | Some errorInfo \<Rightarrow> Errors errorInfo)"

definition success_response :: "(string \<Rightarrow> string) \<Rightarrow> APIData \<Rightarrow> Response" where
  \<comment> \<open>the value \<open>successResponse\<close> of \<open>generateResponses\<close>\<close>
  "success_response lower apiData =
     \<lparr>r_Description = ''Successful response'',
      r_Content = [(''application/json'',
                    \<lparr>mt_Schema = generateSuccessResponseSchema lower apiData\<rparr>)]\<rparr>"

lemma generateResponses_lookup:
  "map_of (generateResponses lower apiData) code =
     (case find (\<lambda>e. (e_Code e \<noteq> [] \<and> isValidHTTPStatusCode (e_Code e)) \<and> e_Code e = code)
             (rev (errors_of apiData)) of
        Some e \<Rightarrow> Some (error_response (e_Description e))
      | None \<Rightarrow>
          if code = ''400'' then Some (error_response ''Error response'')
          else if code = ''200'' then Some (success_response lower apiData)
          else None)"
  by (cases "a_ErrorInfo apiData")
     (simp_all add: generateResponses_def errors_of_def success_response_def
        fold_cond_update_lookup update_conv' Let_def split: option.split)

lemma isValidHTTPStatusCode_iff:
  "isValidHTTPStatusCode code \<longleftrightarrow>
     length code = 3 \<and> (\<forall>c \<in> set code. is_digit c)
     \<and> (49::nat) \<le> of_char (hd code) \<and> of_char (hd code) \<le> (53::nat)"
  by (cases code) (auto simp: isValidHTTPStatusCode_def list_all_iff)

lemma error_schema_neq_success_schema:
  "generateErrorResponseSchema \<noteq> generateSuccessResponseSchema lower apiData"
  by (simp add: generateErrorResponseSchema_def generateSuccessResponseSchema_def Let_def
      split: prod.split)

definition api_error_200 :: APIData where
  "api_error_200 =
     \<lparr>a_MethodInfo = None, a_RequestParams = [], a_ResponseParams = [],
      a_RequestJSON = None, a_ResponseJSON = None,
      a_ErrorInfo = Some \<lparr>Errors =
        [\<lparr>e_Code = ''200'', e_Mnemonic = ''done'', e_Description = ''Done''\<rparr>]\<rparr>\<rparr>"

definition api_error_404 :: APIData where
  "api_error_404 =
     \<lparr>a_MethodInfo = None, a_RequestParams = [], a_ResponseParams = [],
      a_RequestJSON = None, a_ResponseJSON = None,
      a_ErrorInfo = Some \<lparr>Errors =
        [\<lparr>e_Code = ''404'', e_Mnemonic = ''not_found'', e_Description = ''Not found''\<rparr>,
         \<lparr>e_Code = ''-32602'', e_Mnemonic = ''invalid'', e_Description = ''Invalid''\<rparr>]\<rparr>\<rparr>"

text \<open>
  Claim C5, as stated, fails: for a record whose error list has an entry with the code
  \<open>200\<close>, the entry under the key \<open>200\<close> of the responses is the response of that error
  (its description, the error schema) and not the success entry.
\<close>

theorem C5_success_entry_counterexample:
  "map_of (generateResponses ToLower_ru api_error_200) ''200'' = Some (error_response ''Done'')
   \<and> error_response ''Done'' \<noteq> success_response ToLower_ru api_error_200"
  by (simp add: generateResponses_lookup errors_of_def api_error_200_def
      isValidHTTPStatusCode_def is_digit_def error_response_def success_response_def
      error_schema_neq_success_schema)

text \<open>
  Claim C5, amended. The responses always have the keys \<open>200\<close> and \<open>400\<close>. The entry under
  \<open>200\<close> is the success entry unless an error entry has the code \<open>200\<close>, and the entry
  under \<open>400\<close> is the generic error entry unless an error entry has the code \<open>400\<close>. Every
  error entry whose code is a valid status code has a response under its code, with the
  error schema and the description of an error entry of that code. There is no other
  key, and no key occurs twice. A code is valid exactly when it has three characters,
  all of them ASCII digits, the first one from 1 to 5.
\<close>

theorem C5_responses:
  "(\<exists>r. map_of (generateResponses lower apiData) ''200'' = Some r)
   \<and> (\<exists>r. map_of (generateResponses lower apiData) ''400'' = Some r)
   \<and> ((\<forall>e \<in> set (errors_of apiData). e_Code e \<noteq> ''200'') \<longrightarrow>
        map_of (generateResponses lower apiData) ''200''
          = Some (success_response lower apiData))
   \<and> ((\<forall>e \<in> set (errors_of apiData). e_Code e \<noteq> ''400'') \<longrightarrow>
        map_of (generateResponses lower apiData) ''400''
          = Some (error_response ''Error response''))
   \<and> (\<forall>e \<in> set (errors_of apiData). isValidHTTPStatusCode (e_Code e) \<longrightarrow>
        (\<exists>e' \<in> set (errors_of apiData). e_Code e' = e_Code e \<and>
           map_of (generateResponses lower apiData) (e_Code e)
             = Some (error_response (e_Description e'))))
   \<and> (\<forall>code r. map_of (generateResponses lower apiData) code = Some r \<longrightarrow>
        code = ''200'' \<or> code = ''400'' \<or>
        (\<exists>e \<in> set (errors_of apiData). e_Code e = code \<and> isValidHTTPStatusCode code))
   \<and> distinct (map fst (generateResponses lower apiData))
   \<and> (\<forall>code. isValidHTTPStatusCode code \<longleftrightarrow>
         length code = 3 \<and> (\<forall>c \<in> set code. is_digit c)
         \<and> (49::nat) \<le> of_char (hd code) \<and> of_char (hd code) \<le> (53::nat))"
proof -
  let ?R = "generateResponses lower apiData"
  let ?errs = "errors_of apiData"
  let ?f = "\<lambda>code. find (\<lambda>e. (e_Code e \<noteq> [] \<and> isValidHTTPStatusCode (e_Code e))
                               \<and> e_Code e = code) (rev ?errs)"
  have a1: "\<exists>r. map_of ?R ''200'' = Some r"
    by (simp add: generateResponses_lookup split: option.split)
  have a2: "\<exists>r. map_of ?R ''400'' = Some r"
    by (simp add: generateResponses_lookup split: option.split)
  have none: "(\<forall>e \<in> set ?errs. e_Code e \<noteq> code) \<Longrightarrow> ?f code = None" for code
    by (simp add: find_None_iff)
  have a3: "(\<forall>e \<in> set ?errs. e_Code e \<noteq> ''200'') \<longrightarrow>
              map_of ?R ''200'' = Some (success_response lower apiData)"
  proof
    assume "\<forall>e \<in> set ?errs. e_Code e \<noteq> ''200''"
    then have "?f ''200'' = None" by (rule none)
    then show "map_of ?R ''200'' = Some (success_response lower apiData)"
      by (simp add: generateResponses_lookup)
  qed
  have a4: "(\<forall>e \<in> set ?errs. e_Code e \<noteq> ''400'') \<longrightarrow>
              map_of ?R ''400'' = Some (error_response ''Error response'')"
  proof
    assume "\<forall>e \<in> set ?errs. e_Code e \<noteq> ''400''"
    then have "?f ''400'' = None" by (rule none)
    then show "map_of ?R ''400'' = Some (error_response ''Error response'')"
      by (simp add: generateResponses_lookup)
  qed
  have a5: "\<forall>e \<in> set ?errs. isValidHTTPStatusCode (e_Code e) \<longrightarrow>
        (\<exists>e' \<in> set ?errs. e_Code e' = e_Code e \<and>
           map_of ?R (e_Code e) = Some (error_response (e_Description e')))"
  proof (intro ballI impI)
    fix e assume e: "e \<in> set ?errs" "isValidHTTPStatusCode (e_Code e)"
    then have ne: "e_Code e \<noteq> []" by (auto simp: isValidHTTPStatusCode_def)
    with e have "?f (e_Code e) \<noteq> None" by (simp add: find_None_iff) blast
    then obtain e' where f: "?f (e_Code e) = Some e'" by blast
    from find_SomeD[OF f] have "e' \<in> set ?errs \<and> e_Code e' = e_Code e"
      by simp
    moreover have "map_of ?R (e_Code e) = Some (error_response (e_Description e'))"
      using f by (simp add: generateResponses_lookup)
    ultimately show "\<exists>e' \<in> set ?errs. e_Code e' = e_Code e \<and>
        map_of ?R (e_Code e) = Some (error_response (e_Description e'))"
      by blast
  qed
  have a6: "\<forall>code r. map_of ?R code = Some r \<longrightarrow>
        code = ''200'' \<or> code = ''400'' \<or>
        (\<exists>e \<in> set ?errs. e_Code e = code \<and> isValidHTTPStatusCode code)"
  proof (intro allI impI)
    fix code r assume m: "map_of ?R code = Some r"
    show "code = ''200'' \<or> code = ''400'' \<or>
        (\<exists>e \<in> set ?errs. e_Code e = code \<and> isValidHTTPStatusCode code)"
    proof (cases "?f code")
      case None
      with m show ?thesis by (simp add: generateResponses_lookup split: if_splits)
    next
      case (Some e')
      from find_SomeD[OF Some]
      have "e' \<in> set ?errs \<and> e_Code e' = code \<and> isValidHTTPStatusCode code"
        by auto
      then show ?thesis by blast
    qed
  qed
  have a7: "distinct (map fst ?R)"
    by (cases "a_ErrorInfo apiData")
       (simp_all add: generateResponses_def Let_def fold_cond_update_distinct distinct_update)
  have a8: "\<forall>code. isValidHTTPStatusCode code \<longleftrightarrow>
         length code = 3 \<and> (\<forall>c \<in> set code. is_digit c)
         \<and> (49::nat) \<le> of_char (hd code) \<and> of_char (hd code) \<le> (53::nat)"
    using isValidHTTPStatusCode_iff by blast
  from a1 a2 a3 a4 a5 a6 a7 a8 show ?thesis by (intro conjI)
qed

text \<open>
  Witness for C5: a record with the error codes \<open>404\<close> and \<open>-32602\<close>. The responses are
  the success entry under \<open>200\<close>, the generic entry under \<open>400\<close> and the entry of the
  error under \<open>404\<close>; the negative code adds nothing. The validator gives the values
  that the specification lists.
\<close>

theorem C5_responses_witness:
  "map_of (generateResponses ToLower_ru api_error_404) ''200''
     = Some (success_response ToLower_ru api_error_404)
   \<and> map_of (generateResponses ToLower_ru api_error_404) ''400''
     = Some (error_response ''Error response'')
   \<and> map_of (generateResponses ToLower_ru api_error_404) ''404''
     = Some (error_response ''Not found'')
   \<and> map_of (generateResponses ToLower_ru api_error_404) ''-32602'' = None
   \<and> isValidHTTPStatusCode ''200'' \<and> isValidHTTPStatusCode ''599''
   \<and> isValidHTTPStatusCode ''100'' \<and> \<not> isValidHTTPStatusCode ''99''
   \<and> \<not> isValidHTTPStatusCode ''600'' \<and> \<not> isValidHTTPStatusCode ''abc''
   \<and> \<not> isValidHTTPStatusCode []"
proof -
  note t = C5_responses[of ToLower_ru api_error_404]
  have errs: "errors_of api_error_404 =
     [\<lparr>e_Code = ''404'', e_Mnemonic = ''not_found'', e_Description = ''Not found''\<rparr>,
      \<lparr>e_Code = ''-32602'', e_Mnemonic = ''invalid'', e_Description = ''Invalid''\<rparr>]"
    by (simp add: errors_of_def api_error_404_def)
  have v: "isValidHTTPStatusCode ''200''" "isValidHTTPStatusCode ''599''"
    "isValidHTTPStatusCode ''100''" "\<not> isValidHTTPStatusCode ''99''"
    "\<not> isValidHTTPStatusCode ''600''" "\<not> isValidHTTPStatusCode ''abc''"
    "\<not> isValidHTTPStatusCode []" "isValidHTTPStatusCode ''404''"
    "\<not> isValidHTTPStatusCode ''-32602''"
    by (simp_all add: isValidHTTPStatusCode_def is_digit_def)
  have b1: "map_of (generateResponses ToLower_ru api_error_404) ''200''
     = Some (success_response ToLower_ru api_error_404)"
    using t by (simp add: errs)
  have b2: "map_of (generateResponses ToLower_ru api_error_404) ''400''
     = Some (error_response ''Error response'')"
    using t by (simp add: errs)
  have b3: "map_of (generateResponses ToLower_ru api_error_404) ''404''
     = Some (error_response ''Not found'')"
    using t v by (simp add: errs)
  have b4: "map_of (generateResponses ToLower_ru api_error_404) ''-32602'' = None"
  proof (cases "map_of (generateResponses ToLower_ru api_error_404) ''-32602''")
    case None
    then show ?thesis .
  next
    case (Some r)
    with t have "''-32602'' = ''200'' \<or> ''-32602'' = ''400'' \<or>
        (\<exists>e \<in> set (errors_of api_error_404).
           e_Code e = ''-32602'' \<and> isValidHTTPStatusCode ''-32602'')"
      by blast
    with v show ?thesis by simp
  qed
  from b1 b2 b3 b4 v show ?thesis by simp
qed


section \<open>Allowed values of a parameter\<close>

lemma Split_from_length: "length (Split_from s sep cur) = Suc (count_list s sep)"
  by (induction s arbitrary: cur) simp_all

lemma Split_length: "length (Split s sep) = Suc (count_list s sep)"
  by (simp add: Split_def Split_from_length)

lemma Split_several_iff: "Suc 0 < length (Split s sep) \<longleftrightarrow> sep \<in> set s"
  using count_list_0_iff[of s sep] by (auto simp: Split_length)

lemma Join_Cons: "xs \<noteq> [] \<Longrightarrow> Join (x # xs) sep = x @ sep @ Join xs sep"
  by (cases xs) simp_all

lemma Split_from_Join: "Join (Split_from s sep cur) [sep] = cur @ s"
proof (induction s arbitrary: cur)
  case Nil
  then show ?case by simp
next
  case (Cons c cs)
  have ne: "Split_from cs sep [] \<noteq> []"
    using Split_from_length[of cs sep "[]"] by auto
  show ?case using Cons[of "[]"] Cons[of "cur @ [c]"] by (simp add: Join_Cons[OF ne])
qed

lemma Split_Join: "Join (Split s sep) [sep] = s"
  by (simp add: Split_def Split_from_Join)

definition is_format_hint :: "(string \<Rightarrow> string) \<Rightarrow> string \<Rightarrow> bool" where
  "is_format_hint lower allowedValues \<longleftrightarrow>
     Contains (lower allowedValues) word_format_ru \<or> Contains (lower allowedValues) ''format''"

definition default_example :: "string \<Rightarrow> any" where
  "default_example ty =
     (if ty = ''string'' then AnyString ''example_string''
      else if ty = ''number'' then AnyInt 123
      else if ty = ''boolean'' then AnyBool True
      else if ty = ''array'' then AnyEmptySlice
      else AnyNil)"

text \<open>
  Claim C6. For a parameter with non-empty allowed values: when the text, in lower case,
  contains the Russian or the English word "format", the text is the format of the schema,
  there is no enum, and the example is the default of the type. Otherwise, when the text
  contains a comma, the enum is the list of the pieces between the commas, each trimmed
  (one more piece than there are commas; the pieces joined by commas give the text
  back), and the example is the first entry. Otherwise (a single token) there is no
  format and no enum, and the example is the default of the type.
\<close>

theorem C6_allowed_values:
  assumes "p_AllowedValues param \<noteq> []"
  shows
  "(is_format_hint lower (p_AllowedValues param) \<longrightarrow>
      s_Format (generateParameterSchema lower param) = p_AllowedValues param
      \<and> s_Enum (generateParameterSchema lower param) = []
      \<and> s_Example (generateParameterSchema lower param) = default_example (p_Type param))
   \<and> (\<not> is_format_hint lower (p_AllowedValues param) \<and> CHR '','' \<in> set (p_AllowedValues param) \<longrightarrow>
      s_Format (generateParameterSchema lower param) = []
      \<and> s_Enum (generateParameterSchema lower param)
          = map (\<lambda>val. AnyString (TrimSpace val)) (Split (p_AllowedValues param) (CHR '',''))
      \<and> length (s_Enum (generateParameterSchema lower param))
          = Suc (count_list (p_AllowedValues param) (CHR '',''))
      \<and> s_Example (generateParameterSchema lower param)
          = hd (s_Enum (generateParameterSchema lower param))
      \<and> Join (Split (p_AllowedValues param) (CHR '','')) '','' = p_AllowedValues param)
   \<and> (\<not> is_format_hint lower (p_AllowedValues param) \<and> CHR '','' \<notin> set (p_AllowedValues param) \<longrightarrow>
      s_Format (generateParameterSchema lower param) = []
      \<and> s_Enum (generateParameterSchema lower param) = []
      \<and> s_Example (generateParameterSchema lower param) = default_example (p_Type param))"
proof -
  let ?av = "p_AllowedValues param"
  let ?S = "generateParameterSchema lower param"
  have f: "is_format_hint lower ?av \<longrightarrow>
      s_Format ?S = ?av \<and> s_Enum ?S = [] \<and> s_Example ?S = default_example (p_Type param)"
    using assms
    by (simp add: generateParameterSchema_def is_format_hint_def default_example_def Let_def)
  have e: "\<not> is_format_hint lower ?av \<and> CHR '','' \<in> set ?av \<longrightarrow>
      s_Format ?S = []
      \<and> s_Enum ?S = map (\<lambda>val. AnyString (TrimSpace val)) (Split ?av (CHR '',''))
      \<and> length (s_Enum ?S) = Suc (count_list ?av (CHR '',''))
      \<and> s_Example ?S = hd (s_Enum ?S)
      \<and> Join (Split ?av (CHR '','')) '','' = ?av"
  proof
    assume h: "\<not> is_format_hint lower ?av \<and> CHR '','' \<in> set ?av"
    then have l: "Suc 0 < length (Split ?av (CHR '',''))" by (simp add: Split_several_iff)
    then obtain v vs where sp: "Split ?av (CHR '','') = v # vs"
      by (cases "Split ?av (CHR '','')") auto
    have j: "Join (Split ?av (CHR '','')) '','' = ?av" by (rule Split_Join)
    have c: "0 < count_list ?av (CHR '','')" using l by (simp add: Split_length)
    show "s_Format ?S = []
      \<and> s_Enum ?S = map (\<lambda>val. AnyString (TrimSpace val)) (Split ?av (CHR '',''))
      \<and> length (s_Enum ?S) = Suc (count_list ?av (CHR '',''))
      \<and> s_Example ?S = hd (s_Enum ?S)
      \<and> Join (Split ?av (CHR '','')) '','' = ?av"
      using assms h l j c Split_length[of ?av "CHR '',''"]
      by (simp add: generateParameterSchema_def is_format_hint_def Let_def sp)
  qed
  have n: "\<not> is_format_hint lower ?av \<and> CHR '','' \<notin> set ?av \<longrightarrow>
      s_Format ?S = [] \<and> s_Enum ?S = [] \<and> s_Example ?S = default_example (p_Type param)"
  proof
    assume h: "\<not> is_format_hint lower ?av \<and> CHR '','' \<notin> set ?av"
    then have l: "\<not> Suc 0 < length (Split ?av (CHR '',''))" by (simp add: Split_several_iff)
    show "s_Format ?S = [] \<and> s_Enum ?S = [] \<and> s_Example ?S = default_example (p_Type param)"
      using assms h l
      by (simp add: generateParameterSchema_def is_format_hint_def default_example_def Let_def)
  qed
  from f e n show ?thesis by (intro conjI)
qed

text \<open>
  Witness for C6, the three examples of the specification: \<open>"value1, value2, value3"\<close>
  gives an enum of three trimmed entries with the first one as example; the Russian word
  for "format" followed by \<open>E.164\<close> gives a format and no enum; \<open>"single"\<close> gives
  neither, and the example of the type.
\<close>

definition param_of :: "string \<Rightarrow> string \<Rightarrow> Parameter" where
  "param_of ty allowedValues =
     \<lparr>p_Name = ''p'', p_Type = ty, p_Required = False, p_Description = [],
      p_AllowedValues = allowedValues, p_ArrayItemType = []\<rparr>"


lemma format_hint_examples:
  "is_format_hint ToLower_ru (word_format_ru @ '' E.164'')"
  "\<not> is_format_hint ToLower_ru ''value1, value2, value3''"
  "\<not> is_format_hint ToLower_ru ''single''"
  by (simp_all add: is_format_hint_def word_format_ru_def HasPrefix_def lower_ascii_def)

lemma Split_example:
  "map (\<lambda>val. AnyString (TrimSpace val)) (Split ''value1, value2, value3'' (CHR '',''))
     = [AnyString ''value1'', AnyString ''value2'', AnyString ''value3'']"
  by code_simp


theorem C6_allowed_values_witness:
  "p_AllowedValues (param_of ''string'' ''value1, value2, value3'') \<noteq> []
   \<and> s_Enum (generateParameterSchema ToLower_ru (param_of ''string'' ''value1, value2, value3''))
       = [AnyString ''value1'', AnyString ''value2'', AnyString ''value3'']
   \<and> s_Example (generateParameterSchema ToLower_ru (param_of ''string'' ''value1, value2, value3''))
       = AnyString ''value1''
   \<and> s_Format (generateParameterSchema ToLower_ru (param_of ''string'' ''value1, value2, value3'')) = []
   \<and> s_Format (generateParameterSchema ToLower_ru (param_of ''string'' (word_format_ru @ '' E.164'')))
       = word_format_ru @ '' E.164''
   \<and> s_Enum (generateParameterSchema ToLower_ru (param_of ''string'' (word_format_ru @ '' E.164''))) = []
   \<and> s_Format (generateParameterSchema ToLower_ru (param_of ''string'' ''single'')) = []
   \<and> s_Enum (generateParameterSchema ToLower_ru (param_of ''string'' ''single'')) = []
   \<and> s_Example (generateParameterSchema ToLower_ru (param_of ''string'' ''single''))
       = AnyString ''example_string''"
proof -
  have ne: "p_AllowedValues (param_of ''string'' ''value1, value2, value3'') \<noteq> []"
    "p_AllowedValues (param_of ''string'' (word_format_ru @ '' E.164'')) \<noteq> []"
    "p_AllowedValues (param_of ''string'' ''single'') \<noteq> []"
    by (simp_all add: param_of_def)
  have sel: "p_AllowedValues (param_of ty av) = av" "p_Type (param_of ty av) = ty" for ty av
    by (simp_all add: param_of_def)
  note t1 = C6_allowed_values[OF ne(1), of ToLower_ru, unfolded sel]
  note t2 = C6_allowed_values[OF ne(2), of ToLower_ru, unfolded sel]
  note t3 = C6_allowed_values[OF ne(3), of ToLower_ru, unfolded sel]
  have "s_Enum (generateParameterSchema ToLower_ru (param_of ''string'' ''value1, value2, value3''))
       = [AnyString ''value1'', AnyString ''value2'', AnyString ''value3'']
   \<and> s_Example (generateParameterSchema ToLower_ru (param_of ''string'' ''value1, value2, value3''))
       = AnyString ''value1''
   \<and> s_Format (generateParameterSchema ToLower_ru (param_of ''string'' ''value1, value2, value3'')) = []"
  proof -
    have c: "CHR '','' \<in> set ''value1, value2, value3''" by simp
    from t1 format_hint_examples(2) c
    have "s_Format (generateParameterSchema ToLower_ru (param_of ''string'' ''value1, value2, value3'')) = []
      \<and> s_Enum (generateParameterSchema ToLower_ru (param_of ''string'' ''value1, value2, value3''))
          = map (\<lambda>val. AnyString (TrimSpace val)) (Split ''value1, value2, value3'' (CHR '',''))
      \<and> s_Example (generateParameterSchema ToLower_ru (param_of ''string'' ''value1, value2, value3''))
          = hd (s_Enum (generateParameterSchema ToLower_ru (param_of ''string'' ''value1, value2, value3'')))"
      by blast
    then show ?thesis by (simp add: Split_example)
  qed
  moreover have "s_Format (generateParameterSchema ToLower_ru (param_of ''string'' (word_format_ru @ '' E.164'')))
       = word_format_ru @ '' E.164''
   \<and> s_Enum (generateParameterSchema ToLower_ru (param_of ''string'' (word_format_ru @ '' E.164''))) = []"
    using t2 format_hint_examples(1) by blast
  moreover have "s_Format (generateParameterSchema ToLower_ru (param_of ''string'' ''single'')) = []
   \<and> s_Enum (generateParameterSchema ToLower_ru (param_of ''string'' ''single'')) = []
   \<and> s_Example (generateParameterSchema ToLower_ru (param_of ''string'' ''single''))
       = AnyString ''example_string''"
  proof -
    have c: "CHR '','' \<notin> set ''single''" by simp
    from t3 format_hint_examples(3) c
    have "s_Format (generateParameterSchema ToLower_ru (param_of ''string'' ''single'')) = []
      \<and> s_Enum (generateParameterSchema ToLower_ru (param_of ''string'' ''single'')) = []
      \<and> s_Example (generateParameterSchema ToLower_ru (param_of ''string'' ''single''))
          = default_example ''string''"
      by blast
    then show ?thesis by (simp add: default_example_def)
  qed
  ultimately show ?thesis using ne(1) by blast
qed


section \<open>The request body\<close>

lemma update_fresh: "k \<notin> fst ` set al \<Longrightarrow> AList.update k v al = al @ [(k, v)]"
  by (induction al) auto

lemma params_fold:
  "fold (\<lambda>(name, param) (props, required).
           (AList.update name (g param) props,
            if p_Required param then required @ [name] else required)) params (props0, req0)
   = (fold (\<lambda>(name, param) props. AList.update name (g param) props) params props0,
      req0 @ map fst (filter (\<lambda>(name, param). p_Required param) params))"
  by (induction params arbitrary: props0 req0) (auto split: prod.splits)

lemma fold_update_distinct:
  "distinct (map fst params) \<Longrightarrow> fst ` set props0 \<inter> fst ` set params = {} \<Longrightarrow>
   fold (\<lambda>(name, param) props. AList.update name (g param) props) params props0
   = props0 @ map (\<lambda>(name, param). (name, g param)) params"
proof (induction params arbitrary: props0)
  case Nil
  then show ?case by simp
next
  case (Cons x xs)
  obtain n p where x: "x = (n, p)" by (cases x)
  have fresh: "n \<notin> fst ` set props0" using Cons.prems(2) x by auto
  have "fst ` set (props0 @ [(n, g p)]) \<inter> fst ` set xs = {}"
    using Cons.prems x by auto
  moreover have "distinct (map fst xs)" using Cons.prems(1) by simp
  ultimately show ?case
    using Cons.IH[of "props0 @ [(n, g p)]"] x fresh by (simp add: update_fresh)
qed

definition required_names :: "(string \<times> Parameter) list \<Rightarrow> string list" where
  "required_names params = map fst (filter (\<lambda>(name, param). p_Required param) params)"

lemma params_loop_distinct:
  "distinct (map fst params) \<Longrightarrow>
   params_loop lower params =
     (map (\<lambda>(name, param). (name, generateParameterSchema lower param)) params,
      required_names params)"
  by (simp add: params_loop_def params_fold fold_update_distinct required_names_def)

lemma params_loop_required: "snd (params_loop lower params) = required_names params"
  by (simp add: params_loop_def params_fold required_names_def)

definition params_schema :: "(string \<Rightarrow> string) \<Rightarrow> (string \<times> Parameter) list \<Rightarrow> Schema" where
  "params_schema lower params =
     Schema ''object'' (fst (params_loop lower params)) (snd (params_loop lower params))
       [] AnyNil [] [] None"

definition envelope_schema :: "(string \<Rightarrow> string) \<Rightarrow> MethodInfo \<Rightarrow> (string \<times> Parameter) list \<Rightarrow> Schema" where
  "envelope_schema lower methodInfo params =
     Schema ''object''
       [(''jsonrpc'', Schema ''string'' [] [] ''JSON-RPC version'' (AnyString ''2.0'') [] [] None),
        (''id'', Schema ''number'' [] [] ''Request identifier'' AnyNil [] [] None),
        (''method'', Schema ''string'' [] [] ''Method name'' (AnyString (m_Name methodInfo)) [] [] None),
        (''params'', params_schema lower params)]
       [''jsonrpc'', ''id'', ''method'', ''params''] [] AnyNil [] [] None"

lemma generateRequestBody_eq:
  "a_MethodInfo apiData = Some methodInfo \<Longrightarrow>
   generateRequestBody lower apiData =
     Inr \<lparr>rb_Required = True,
          rb_Content = [(''application/json'',
             \<lparr>mt_Schema = envelope_schema lower methodInfo (a_RequestParams apiData)\<rparr>)]\<rparr>"
  by (simp add: generateRequestBody_def envelope_schema_def params_schema_def Let_def
      split: prod.split)



definition api_three_params :: APIData where
  "api_three_params =
     \<lparr>a_MethodInfo = Some \<lparr>m_Name = ''start.simple_call'', m_Title = ''Start'',
                            m_Description = [], m_AccessLevel = [], m_HTTPMethod = ''post''\<rparr>,
      a_RequestParams =
        [(''access_token'', \<lparr>p_Name = ''access_token'', p_Type = ''string'', p_Required = True,
            p_Description = ''Key'', p_AllowedValues = [], p_ArrayItemType = []\<rparr>),
         (''contact'', \<lparr>p_Name = ''contact'', p_Type = ''string'', p_Required = True,
            p_Description = ''Number'', p_AllowedValues = [], p_ArrayItemType = []\<rparr>),
         (''direction'', \<lparr>p_Name = ''direction'', p_Type = ''string'', p_Required = False,
            p_Description = ''Direction'', p_AllowedValues = ''in, out'',
            p_ArrayItemType = []\<rparr>)],
      a_ResponseParams = [], a_RequestJSON = None, a_ResponseJSON = None,
      a_ErrorInfo = None\<rparr>"

definition api_optional_param :: APIData where
  "api_optional_param =
     \<lparr>a_MethodInfo = Some \<lparr>m_Name = ''get.calls'', m_Title = [],
                            m_Description = [], m_AccessLevel = [], m_HTTPMethod = ''get''\<rparr>,
      a_RequestParams =
        [(''limit'', \<lparr>p_Name = ''limit'', p_Type = ''number'', p_Required = False,
            p_Description = ''Limit'', p_AllowedValues = [], p_ArrayItemType = []\<rparr>)],
      a_ResponseParams = [], a_RequestJSON = None, a_ResponseJSON = None,
      a_ErrorInfo = None\<rparr>"

text \<open>
  Claim C3. For a record with a method record and a non-empty request parameter map
  (distinct keys, as in every Go map), the request body has one schema, whose properties
  are the three envelope keys \<open>jsonrpc\<close>, \<open>id\<close>, \<open>method\<close> and the key \<open>params\<close>. The
  required list of the \<open>params\<close> object holds exactly the names of the required
  parameters (N entries), and its properties hold exactly one entry for each parameter
  (N + M entries), the schema of that parameter.
\<close>

theorem C3_request_body_counts:
  assumes "a_MethodInfo apiData = Some methodInfo"
    and "a_RequestParams apiData \<noteq> []"
    and "distinct (map fst (a_RequestParams apiData))"
  shows "\<exists>requestBody schema params.
      generateRequestBody lower apiData = Inr requestBody
    \<and> rb_Content requestBody = [(''application/json'', \<lparr>mt_Schema = schema\<rparr>)]
    \<and> map fst (s_Properties schema) = [''jsonrpc'', ''id'', ''method'', ''params'']
    \<and> map_of (s_Properties schema) ''params'' = Some params
    \<and> s_Required params = required_names (a_RequestParams apiData)
    \<and> length (s_Required params)
        = length (filter (\<lambda>(name, param). p_Required param) (a_RequestParams apiData))
    \<and> map fst (s_Properties params) = map fst (a_RequestParams apiData)
    \<and> length (s_Properties params)
        = length (filter (\<lambda>(name, param). p_Required param) (a_RequestParams apiData))
          + length (filter (\<lambda>(name, param). \<not> p_Required param) (a_RequestParams apiData))
    \<and> (\<forall>(name, param) \<in> set (a_RequestParams apiData).
          map_of (s_Properties params) name = Some (generateParameterSchema lower param))"
proof -
  let ?ps = "a_RequestParams apiData"
  let ?params = "params_schema lower ?ps"
  let ?schema = "envelope_schema lower methodInfo ?ps"
  have loop: "params_loop lower ?ps =
     (map (\<lambda>(name, param). (name, generateParameterSchema lower param)) ?ps, required_names ?ps)"
    using assms(3) by (rule params_loop_distinct)
  have p1: "s_Required ?params = required_names ?ps"
    by (simp add: params_schema_def loop)
  have p2: "s_Properties ?params
      = map (\<lambda>(name, param). (name, generateParameterSchema lower param)) ?ps"
    by (simp add: params_schema_def loop)
  have keys: "map fst (s_Properties ?params) = map fst ?ps"
    by (simp add: p2 split_def comp_def)
  have n: "length (s_Required ?params)
      = length (filter (\<lambda>(name, param). p_Required param) ?ps)"
    by (simp add: p1 required_names_def)
  have total: "length (s_Properties ?params)
      = length (filter (\<lambda>(name, param). p_Required param) ?ps)
        + length (filter (\<lambda>(name, param). \<not> p_Required param) ?ps)"
    using sum_length_filter_compl[of "\<lambda>(name, param). p_Required param" ?ps]
    by (simp add: p2 split_def)
  have each: "\<forall>(name, param) \<in> set ?ps.
      map_of (s_Properties ?params) name = Some (generateParameterSchema lower param)"
  proof (intro ballI, clarify)
    fix name param assume m: "(name, param) \<in> set ?ps"
    have "map_of ?ps name = Some param"
      using assms(3) m by simp
    then show "map_of (s_Properties ?params) name = Some (generateParameterSchema lower param)"
      by (simp add: p2 map_of_map)
  qed
  have body: "generateRequestBody lower apiData =
     Inr \<lparr>rb_Required = True, rb_Content = [(''application/json'', \<lparr>mt_Schema = ?schema\<rparr>)]\<rparr>"
    using assms(1) by (rule generateRequestBody_eq)
  have e1: "map fst (s_Properties ?schema) = [''jsonrpc'', ''id'', ''method'', ''params'']"
    by (simp add: envelope_schema_def)
  have e2: "map_of (s_Properties ?schema) ''params'' = Some ?params"
    by (simp add: envelope_schema_def)
  show ?thesis
    apply (rule exI[of _ "\<lparr>rb_Required = True,
        rb_Content = [(''application/json'', \<lparr>mt_Schema = ?schema\<rparr>)]\<rparr>"])
    apply (rule exI[of _ ?schema])
    apply (rule exI[of _ ?params])
    using body e1 e2 p1 n keys total each apply simp
    done
qed

text \<open>
  Witness for C3: a record with the required parameters \<open>access_token\<close> and \<open>contact\<close> and
  the optional parameter \<open>direction\<close> (N = 2, M = 1).
\<close>

theorem C3_request_body_counts_witness:
  "a_RequestParams api_three_params \<noteq> []
   \<and> distinct (map fst (a_RequestParams api_three_params))
   \<and> (\<exists>requestBody schema params.
        generateRequestBody ToLower_ru api_three_params = Inr requestBody
      \<and> rb_Content requestBody = [(''application/json'', \<lparr>mt_Schema = schema\<rparr>)]
      \<and> map_of (s_Properties schema) ''params'' = Some params
      \<and> s_Required params = [''access_token'', ''contact'']
      \<and> length (s_Required params) = 2
      \<and> map fst (s_Properties params) = [''access_token'', ''contact'', ''direction'']
      \<and> length (s_Properties params) = 3)"
proof -
  have m: "a_MethodInfo api_three_params =
      Some \<lparr>m_Name = ''start.simple_call'', m_Title = ''Start'',
            m_Description = [], m_AccessLevel = [], m_HTTPMethod = ''post''\<rparr>"
    by (simp add: api_three_params_def)
  have ne: "a_RequestParams api_three_params \<noteq> []"
    by (simp add: api_three_params_def)
  have d: "distinct (map fst (a_RequestParams api_three_params))"
    by (simp add: api_three_params_def)
  from C3_request_body_counts[OF m ne d, of ToLower_ru]
  obtain requestBody schema params where r:
    "generateRequestBody ToLower_ru api_three_params = Inr requestBody"
    "rb_Content requestBody = [(''application/json'', \<lparr>mt_Schema = schema\<rparr>)]"
    "map_of (s_Properties schema) ''params'' = Some params"
    "s_Required params = required_names (a_RequestParams api_three_params)"
    "map fst (s_Properties params) = map fst (a_RequestParams api_three_params)"
    by blast
  have "s_Required params = [''access_token'', ''contact'']"
    using r(4) by (simp add: required_names_def api_three_params_def)
  moreover have "map fst (s_Properties params) = [''access_token'', ''contact'', ''direction'']"
    using r(5) by (simp add: api_three_params_def)
  moreover from this have "length (s_Properties params) = 3"
    using length_map[of fst "s_Properties params"] by simp
  ultimately show ?thesis using ne d r(1,2,3) by auto
qed

text \<open>
  Claim C10. For a record with a method record and at least one request parameter, the
  operation has a request body; it is marked required, and the required list of its
  schema is exactly \<open>jsonrpc\<close>, \<open>id\<close>, \<open>method\<close>, \<open>params\<close>, whatever the required flags of
  the parameters are.
\<close>

theorem C10_request_body_required:
  assumes "a_MethodInfo apiData = Some methodInfo"
    and "a_RequestParams apiData \<noteq> []"
  shows "\<exists>operation requestBody schema.
      generateOperation lower apiData = Inr operation
    \<and> o_RequestBody operation = Some requestBody
    \<and> generateRequestBody lower apiData = Inr requestBody
    \<and> rb_Required requestBody
    \<and> rb_Content requestBody = [(''application/json'', \<lparr>mt_Schema = schema\<rparr>)]
    \<and> s_Required schema = [''jsonrpc'', ''id'', ''method'', ''params'']"
proof -
  let ?schema = "envelope_schema lower methodInfo (a_RequestParams apiData)"
  let ?rb = "\<lparr>rb_Required = True,
              rb_Content = [(''application/json'', \<lparr>mt_Schema = ?schema\<rparr>)]\<rparr>"
  have body: "generateRequestBody lower apiData = Inr ?rb"
    using assms(1) by (rule generateRequestBody_eq)
  obtain description where d: "generateDescription apiData = Inr description"
    using assms(1) by (simp add: generateDescription_def Let_def)
  have op: "generateOperation lower apiData =
      Inr \<lparr>o_Summary = m_Title methodInfo, o_Description = description,
           o_RequestBody = Some ?rb, o_Responses = generateResponses lower apiData,
           o_Tags = [''novofon'']\<rparr>"
    using assms d body by (simp add: generateOperation_def Let_def)
  have req: "s_Required ?schema = [''jsonrpc'', ''id'', ''method'', ''params'']"
    by (simp add: envelope_schema_def)
  show ?thesis using op body req by simp
qed

text \<open>
  Witness for C10: a record whose only request parameter is optional; the \<open>params\<close>
  object is required all the same, and its own required list is empty.
\<close>

theorem C10_request_body_required_witness:
  "a_RequestParams api_optional_param \<noteq> []
   \<and> (\<exists>operation requestBody schema.
        generateOperation ToLower_ru api_optional_param = Inr operation
      \<and> o_RequestBody operation = Some requestBody
      \<and> rb_Required requestBody
      \<and> rb_Content requestBody = [(''application/json'', \<lparr>mt_Schema = schema\<rparr>)]
      \<and> s_Required schema = [''jsonrpc'', ''id'', ''method'', ''params''])
   \<and> required_names (a_RequestParams api_optional_param) = []"
proof -
  have m: "a_MethodInfo api_optional_param =
      Some \<lparr>m_Name = ''get.calls'', m_Title = [],
            m_Description = [], m_AccessLevel = [], m_HTTPMethod = ''get''\<rparr>"
    by (simp add: api_optional_param_def)
  have ne: "a_RequestParams api_optional_param \<noteq> []"
    by (simp add: api_optional_param_def)
  have none: "required_names (a_RequestParams api_optional_param) = []"
    by (simp add: required_names_def api_optional_param_def)
  from C10_request_body_required[OF m ne, of ToLower_ru] ne none
  show ?thesis by blast
qed


section \<open>The document of a record\<close>

lemma generateDescription_total:
  "a_MethodInfo apiData = Some methodInfo \<Longrightarrow> \<exists>d. generateDescription apiData = Inr d"
  by (simp add: generateDescription_def Let_def)

lemma generateOperation_total:
  assumes "a_MethodInfo apiData = Some methodInfo"
  shows "\<exists>operation. generateOperation lower apiData = Inr operation"
proof -
  obtain d where d: "generateDescription apiData = Inr d"
    using generateDescription_total[OF assms] by blast
  show ?thesis
    using assms d generateRequestBody_eq[OF assms, of lower]
    by (simp add: generateOperation_def Let_def)
qed

definition path_item_for :: "string \<Rightarrow> Operation \<Rightarrow> PathItem" where
  "path_item_for verb operation =
     (if verb = ''get'' then \<lparr>Post = None, Get = Some operation, Put = None, Delete = None\<rparr>
      else if verb = ''put'' then \<lparr>Post = None, Get = None, Put = Some operation, Delete = None\<rparr>
      else if verb = ''delete'' then \<lparr>Post = None, Get = None, Put = None, Delete = Some operation\<rparr>
      else \<lparr>Post = Some operation, Get = None, Put = None, Delete = None\<rparr>)"

definition operations_of :: "PathItem \<Rightarrow> Operation list" where
  "operations_of pathItem =
     List.map_filter (\<lambda>x. x) [Post pathItem, Get pathItem, Put pathItem, Delete pathItem]"

lemma operations_of_path_item_for: "operations_of (path_item_for verb operation) = [operation]"
  by (simp add: operations_of_def path_item_for_def List.map_filter_simps)

lemma GenerateSpec_success:
  assumes "a_MethodInfo apiData = Some methodInfo"
  shows "\<exists>spec operation.
      GenerateSpec lower (Some apiData) = Inr (Some spec, None)
    \<and> generateOperation lower apiData = Inr operation
    \<and> Paths spec = [(''/'' @ m_Name methodInfo,
                      path_item_for (lower (m_HTTPMethod methodInfo)) operation)]"
proof -
  obtain operation where op: "generateOperation lower apiData = Inr operation"
    using generateOperation_total[OF assms] by blast
  show ?thesis
    using assms op
    by (cases "a_ErrorInfo apiData")
       (simp_all add: GenerateSpec_def Let_def path_item_for_def)
qed

text \<open>
  Claim C4. \<open>GenerateSpec\<close> never panics. It returns an error (and no document) exactly
  when the record or its method record is \<open>nil\<close>. Otherwise it returns a document and no
  error; the document has exactly one path, \<open>/\<close> followed by the method name, and the path
  item holds exactly one operation, the one that \<open>generateOperation\<close> builds: under \<open>get\<close>,
  \<open>put\<close> or \<open>delete\<close> when the verb in lower case is that word, and under \<open>post\<close> for
  every other verb.
\<close>

theorem C4_GenerateSpec:
  "(\<forall>x. GenerateSpec lower apiDataPtr \<noteq> Inl x)
   \<and> ((\<exists>err. GenerateSpec lower apiDataPtr = Inr (None, Some err)) \<longleftrightarrow>
        (apiDataPtr = None \<or> (\<exists>apiData. apiDataPtr = Some apiData \<and> a_MethodInfo apiData = None)))
   \<and> (\<forall>apiData methodInfo. apiDataPtr = Some apiData \<and> a_MethodInfo apiData = Some methodInfo \<longrightarrow>
        (\<exists>spec operation pathItem.
            GenerateSpec lower apiDataPtr = Inr (Some spec, None)
          \<and> generateOperation lower apiData = Inr operation
          \<and> Paths spec = [(''/'' @ m_Name methodInfo, pathItem)]
          \<and> pathItem = path_item_for (lower (m_HTTPMethod methodInfo)) operation
          \<and> operations_of pathItem = [operation]))"
proof -
  have c: "apiDataPtr = None \<or> (\<exists>apiData. apiDataPtr = Some apiData \<and> a_MethodInfo apiData = None)
       \<or> (\<exists>apiData methodInfo. apiDataPtr = Some apiData \<and> a_MethodInfo apiData = Some methodInfo)"
    by (cases apiDataPtr) auto
  have e1: "apiDataPtr = None \<Longrightarrow>
      GenerateSpec lower apiDataPtr = Inr (None, Some ''invalid API data: method info is required'')"
    by (simp add: GenerateSpec_def)
  have e2: "apiDataPtr = Some apiData \<Longrightarrow> a_MethodInfo apiData = None \<Longrightarrow>
      GenerateSpec lower apiDataPtr = Inr (None, Some ''invalid API data: method info is required'')"
    for apiData
    by (simp add: GenerateSpec_def)
  have s: "apiDataPtr = Some apiData \<Longrightarrow> a_MethodInfo apiData = Some methodInfo \<Longrightarrow>
        (\<exists>spec operation pathItem.
            GenerateSpec lower apiDataPtr = Inr (Some spec, None)
          \<and> generateOperation lower apiData = Inr operation
          \<and> Paths spec = [(''/'' @ m_Name methodInfo, pathItem)]
          \<and> pathItem = path_item_for (lower (m_HTTPMethod methodInfo)) operation
          \<and> operations_of pathItem = [operation])" for apiData methodInfo
    using GenerateSpec_success[of apiData methodInfo lower]
    by (auto simp: operations_of_path_item_for)
  have p1: "\<forall>x. GenerateSpec lower apiDataPtr \<noteq> Inl x"
    using c e1 e2 s by (metis sum.distinct(1))
  have p2: "(\<exists>err. GenerateSpec lower apiDataPtr = Inr (None, Some err)) \<longleftrightarrow>
        (apiDataPtr = None \<or> (\<exists>apiData. apiDataPtr = Some apiData \<and> a_MethodInfo apiData = None))"
  proof
    assume "\<exists>err. GenerateSpec lower apiDataPtr = Inr (None, Some err)"
    then obtain err where g: "GenerateSpec lower apiDataPtr = Inr (None, Some err)" by blast
    show "apiDataPtr = None \<or> (\<exists>apiData. apiDataPtr = Some apiData \<and> a_MethodInfo apiData = None)"
    proof (rule ccontr)
      assume "\<not> ?thesis"
      with c obtain apiData methodInfo where
        "apiDataPtr = Some apiData" "a_MethodInfo apiData = Some methodInfo" by blast
      from s[OF this] g show False by auto
    qed
  next
    assume "apiDataPtr = None \<or> (\<exists>apiData. apiDataPtr = Some apiData \<and> a_MethodInfo apiData = None)"
    then show "\<exists>err. GenerateSpec lower apiDataPtr = Inr (None, Some err)"
      using e1 e2 by blast
  qed
  have p3: "\<forall>apiData methodInfo. apiDataPtr = Some apiData \<and> a_MethodInfo apiData = Some methodInfo \<longrightarrow>
        (\<exists>spec operation pathItem.
            GenerateSpec lower apiDataPtr = Inr (Some spec, None)
          \<and> generateOperation lower apiData = Inr operation
          \<and> Paths spec = [(''/'' @ m_Name methodInfo, pathItem)]
          \<and> pathItem = path_item_for (lower (m_HTTPMethod methodInfo)) operation
          \<and> operations_of pathItem = [operation])"
    using s by blast
  from p1 p2 p3 show ?thesis by (intro conjI)
qed

definition api_patch :: APIData where
  "api_patch =
     \<lparr>a_MethodInfo = Some \<lparr>m_Name = ''edit.call'', m_Title = [],
                            m_Description = [], m_AccessLevel = [], m_HTTPMethod = ''PATCH''\<rparr>,
      a_RequestParams = [], a_ResponseParams = [], a_RequestJSON = None,
      a_ResponseJSON = None, a_ErrorInfo = None\<rparr>"

text \<open>
  Witness for C4: no record gives an error; the record of \<open>get.calls\<close> with the verb \<open>get\<close>
  gives the single path \<open>/get.calls\<close> with a GET operation; a record with the verb
  \<open>PATCH\<close> gives a POST operation.
\<close>

theorem C4_GenerateSpec_witness:
  "(\<exists>err. GenerateSpec ToLower_ru None = Inr (None, Some err))
   \<and> (\<exists>spec operation.
         GenerateSpec ToLower_ru (Some api_optional_param) = Inr (Some spec, None)
       \<and> Paths spec = [(''/get.calls'',
            \<lparr>Post = None, Get = Some operation, Put = None, Delete = None\<rparr>)])
   \<and> (\<exists>spec operation.
         GenerateSpec ToLower_ru (Some api_patch) = Inr (Some spec, None)
       \<and> Paths spec = [(''/edit.call'',
            \<lparr>Post = Some operation, Get = None, Put = None, Delete = None\<rparr>)])"
proof -
  have w1: "\<exists>err. GenerateSpec ToLower_ru None = Inr (None, Some err)"
    using C4_GenerateSpec[of ToLower_ru None] by blast
  have m2: "a_MethodInfo api_optional_param =
      Some \<lparr>m_Name = ''get.calls'', m_Title = [],
            m_Description = [], m_AccessLevel = [], m_HTTPMethod = ''get''\<rparr>"
    by (simp add: api_optional_param_def)
  have l2: "ToLower_ru ''get'' = ''get''"
    by (simp add: lower_ascii_def)
  from C4_GenerateSpec[of ToLower_ru "Some api_optional_param"] m2
  obtain spec2 operation2 where r2:
    "GenerateSpec ToLower_ru (Some api_optional_param) = Inr (Some spec2, None)"
    "Paths spec2 = [(''/'' @ ''get.calls'', path_item_for (ToLower_ru ''get'') operation2)]"
    by fastforce
  have w2: "\<exists>spec operation.
         GenerateSpec ToLower_ru (Some api_optional_param) = Inr (Some spec, None)
       \<and> Paths spec = [(''/get.calls'',
            \<lparr>Post = None, Get = Some operation, Put = None, Delete = None\<rparr>)]"
    using r2[unfolded l2] by (simp add: path_item_for_def)
  have m3: "a_MethodInfo api_patch =
      Some \<lparr>m_Name = ''edit.call'', m_Title = [],
            m_Description = [], m_AccessLevel = [], m_HTTPMethod = ''PATCH''\<rparr>"
    by (simp add: api_patch_def)
  have l3: "ToLower_ru ''PATCH'' = ''patch''"
    by code_simp
  from C4_GenerateSpec[of ToLower_ru "Some api_patch"] m3
  obtain spec3 operation3 where r3:
    "GenerateSpec ToLower_ru (Some api_patch) = Inr (Some spec3, None)"
    "Paths spec3 = [(''/'' @ ''edit.call'', path_item_for (ToLower_ru ''PATCH'') operation3)]"
    by fastforce
  have w3: "\<exists>spec operation.
         GenerateSpec ToLower_ru (Some api_patch) = Inr (Some spec, None)
       \<and> Paths spec = [(''/edit.call'',
            \<lparr>Post = Some operation, Get = None, Put = None, Delete = None\<rparr>)]"
    using r3[unfolded l3] by (simp add: path_item_for_def)
  from w1 w2 w3 show ?thesis by (intro conjI)
qed


section \<open>Bundling: first writer wins\<close>

fun first_writer :: "('k \<Rightarrow> 'v option) list \<Rightarrow> 'k \<Rightarrow> 'v option" where
  "first_writer [] k = None"
| "first_writer (m # ms) k = (case m k of Some v \<Rightarrow> Some v | None \<Rightarrow> first_writer ms k)"

definition paths_of :: "yaml_map \<Rightarrow> string \<Rightarrow> yaml option" where
  "paths_of spec =
     (case map_of spec ''paths'' of Some (YMap paths) \<Rightarrow> map_of paths | _ \<Rightarrow> Map.empty)"

definition components_of :: "yaml_map \<Rightarrow> string \<Rightarrow> string \<Rightarrow> yaml option" where
  "components_of spec componentType =
     (case map_of spec ''components'' of
        Some (YMap components) \<Rightarrow>
          (case map_of components componentType of
             Some (YMap sourceComponents) \<Rightarrow> map_of sourceComponents
           | _ \<Rightarrow> Map.empty)
      | _ \<Rightarrow> Map.empty)"

definition distinct_component_types :: "yaml_map \<Rightarrow> bool" where
  "distinct_component_types spec =
     (case map_of spec ''components'' of
        Some (YMap components) \<Rightarrow> distinct (map fst components)
      | _ \<Rightarrow> True)"

definition bundled_component :: "bundled \<Rightarrow> string \<Rightarrow> string \<Rightarrow> yaml option" where
  "bundled_component b componentType =
     (case b_components b of
        None \<Rightarrow> Map.empty
      | Some bundledComponents \<Rightarrow>
          (case map_of bundledComponents componentType of
             None \<Rightarrow> Map.empty
           | Some targetComponents \<Rightarrow> map_of targetComponents))"

definition loaded_specs ::
  "(string \<Rightarrow> string + string) \<Rightarrow> (string \<Rightarrow> string + yaml_map) \<Rightarrow> string list
     \<Rightarrow> yaml_map list" where
  "loaded_specs ReadFile Unmarshal inputFiles =
     List.map_filter (\<lambda>inputFile.
        (case ReadFile inputFile of
           Inl err \<Rightarrow> None
         | Inr content \<Rightarrow>
            (case Unmarshal content of Inl err \<Rightarrow> None | Inr spec \<Rightarrow> Some spec)))
       inputFiles"

lemma bundle_files_loaded:
  "bundle_files ReadFile Unmarshal inputFiles b
     = fold merge_spec (loaded_specs ReadFile Unmarshal inputFiles) b"
  unfolding bundle_files_def loaded_specs_def
  by (induction inputFiles arbitrary: b)
     (auto simp: List.map_filter_simps split: sum.splits)

lemma first_wins_fold':
  "map_of (fold (\<lambda>(k, v) m. if map_of m k = None then AList.update k v m else m) kvs m0) k
     = (case map_of m0 k of Some v \<Rightarrow> Some v | None \<Rightarrow> map_of kvs k)"
proof (induction kvs arbitrary: m0)
  case Nil
  then show ?case by (simp split: option.split)
next
  case (Cons x kvs)
  obtain k' v' where x: "x = (k', v')" by (cases x)
  show ?case
    by (simp add: x Cons.IH update_conv' split: option.split)
qed

lemma first_wins_fold:
  "map_of (fold (\<lambda>(k, v) m. if map_of m k \<noteq> None then m else AList.update k v m) kvs m0) k
     = (case map_of m0 k of Some v \<Rightarrow> Some v | None \<Rightarrow> map_of kvs k)"
proof -
  have eq: "(\<lambda>(k, v) m. if map_of m k \<noteq> None then m else AList.update k v m)
      = (\<lambda>(k, v) m. if map_of m k = None then AList.update k v m else m)"
    by (intro ext) (simp split: prod.split del: not_None_eq)
  show ?thesis unfolding eq by (rule first_wins_fold')
qed

lemma merge_paths_lookup:
  "map_of (b_paths (merge_paths spec b)) k
     = (case map_of (b_paths b) k of Some v \<Rightarrow> Some v | None \<Rightarrow> paths_of spec k)"
  by (simp add: merge_paths_def paths_of_def first_wins_fold
      split: option.split yaml.split del: not_None_eq)

lemma merge_components_paths: "b_paths (merge_components spec b) = b_paths b"
  by (simp add: merge_components_def Let_def split: option.split yaml.split)

lemma merge_xerrors_paths: "b_paths (merge_xerrors spec b) = b_paths b"
  by (simp add: merge_xerrors_def Let_def split: option.split yaml.split)

lemma merge_spec_paths: "b_paths (merge_spec spec b) = b_paths (merge_paths spec b)"
  by (simp add: merge_spec_def merge_xerrors_paths merge_components_paths)

lemma fold_merge_spec_paths:
  "map_of (b_paths (fold merge_spec specs b)) k
     = (case map_of (b_paths b) k of
          Some v \<Rightarrow> Some v
        | None \<Rightarrow> first_writer (map paths_of specs) k)"
proof (induction specs arbitrary: b)
  case Nil
  then show ?case by (simp split: option.split)
next
  case (Cons spec specs)
  show ?case
    by (simp add: Cons.IH merge_spec_paths merge_paths_lookup split: option.split)
qed


definition names_of :: "yaml \<Rightarrow> string \<Rightarrow> yaml option" where
  "names_of componentData =
     (case componentData of YMap sourceComponents \<Rightarrow> map_of sourceComponents | _ \<Rightarrow> Map.empty)"

definition lookup2 :: "(string \<times> yaml_map) list \<Rightarrow> string \<Rightarrow> string \<Rightarrow> yaml option" where
  "lookup2 bc t n = (case map_of bc t of None \<Rightarrow> None | Some tc \<Rightarrow> map_of tc n)"

definition merge_type :: "string \<times> yaml \<Rightarrow> (string \<times> yaml_map) list \<Rightarrow> (string \<times> yaml_map) list" where
  "merge_type = (\<lambda>(componentType, componentData) bundledComponents.
     (let targetComponents =
            (case map_of bundledComponents componentType of None \<Rightarrow> [] | Some tc \<Rightarrow> tc);
          targetComponents =
            (case componentData of
               YMap sourceComponents \<Rightarrow>
                 fold (\<lambda>(name, component) targetComponents.
                         if map_of targetComponents name = None
                         then AList.update name component targetComponents
                         else targetComponents)
                   sourceComponents targetComponents
             | _ \<Rightarrow> targetComponents)
      in AList.update componentType targetComponents bundledComponents))"

lemma merge_type_lookup:
  "lookup2 (merge_type (t', d) bc) t n =
     (case lookup2 bc t n of
        Some v \<Rightarrow> Some v
      | None \<Rightarrow> if t' = t then names_of d n else None)"
proof (cases "t' = t")
  case False
  then show ?thesis
    by (simp add: merge_type_def lookup2_def Let_def update_conv' split: option.split)
next
  case True
  show ?thesis
  proof (cases d)
    case (YMap sc)
    then show ?thesis using True
      by (simp add: merge_type_def lookup2_def names_of_def Let_def update_conv'
          first_wins_fold' split: option.split)
  qed (simp_all add: True merge_type_def lookup2_def names_of_def Let_def update_conv'
        split: option.split)
qed

lemma fold_merge_type_lookup:
  "lookup2 (fold merge_type comps bc) t n =
     (case lookup2 bc t n of
        Some v \<Rightarrow> Some v
      | None \<Rightarrow> first_writer (map (\<lambda>(t', d). if t' = t then names_of d else Map.empty) comps) n)"
proof (induction comps arbitrary: bc)
  case Nil
  then show ?case by (simp split: option.split)
next
  case (Cons x comps)
  obtain t' d where x: "x = (t', d)" by (cases x)
  show ?case
    by (simp add: x Cons.IH merge_type_lookup split: option.split)
qed

lemma first_writer_absent:
  "t \<notin> fst ` set comps \<Longrightarrow>
   first_writer (map (\<lambda>(t', d). if t' = t then names_of d else Map.empty) comps) n = None"
  by (induction comps) auto

lemma first_writer_distinct:
  "distinct (map fst comps) \<Longrightarrow>
   first_writer (map (\<lambda>(t', d). if t' = t then names_of d else Map.empty) comps) n
     = (case map_of comps t of Some d \<Rightarrow> names_of d n | None \<Rightarrow> None)"
proof (induction comps)
  case Nil
  then show ?case by simp
next
  case (Cons x comps)
  obtain t' d where x: "x = (t', d)" by (cases x)
  show ?case
  proof (cases "t' = t")
    case True
    then have "t \<notin> fst ` set comps" using Cons.prems x by auto
    then show ?thesis using True x
      by (simp add: first_writer_absent split: option.split)
  next
    case False
    then show ?thesis using Cons x by simp
  qed
qed

lemma merge_components_eq:
  "merge_components spec b =
     (case map_of spec ''components'' of
        Some (YMap components) \<Rightarrow>
          b\<lparr>b_components := Some (fold merge_type components
               (case b_components b of None \<Rightarrow> [] | Some bc \<Rightarrow> bc))\<rparr>
      | _ \<Rightarrow> b)"
  by (simp add: merge_components_def merge_type_def Let_def split: option.split yaml.split)

lemma bundled_component_lookup2:
  "bundled_component b t n =
     lookup2 (case b_components b of None \<Rightarrow> [] | Some bc \<Rightarrow> bc) t n"
  by (simp add: bundled_component_def lookup2_def split: option.split)

lemma merge_components_lookup:
  assumes "distinct_component_types spec"
  shows "bundled_component (merge_components spec b) t n
     = (case bundled_component b t n of
          Some v \<Rightarrow> Some v
        | None \<Rightarrow> components_of spec t n)"
proof (cases "\<exists>components. map_of spec ''components'' = Some (YMap components)")
  case True
  then obtain components where c: "map_of spec ''components'' = Some (YMap components)"
    by blast
  then have d: "distinct (map fst components)"
    using assms by (simp add: distinct_component_types_def)
  have n: "components_of spec t n
      = (case map_of components t of Some d \<Rightarrow> names_of d n | None \<Rightarrow> None)"
    by (simp add: components_of_def c names_of_def split: option.split yaml.split)
  show ?thesis
    by (simp add: bundled_component_lookup2 merge_components_eq c fold_merge_type_lookup
        first_writer_distinct[OF d] n split: option.split)
next
  case False
  then have "merge_components spec b = b"
    by (auto simp: merge_components_eq split: option.split yaml.split)
  moreover have "components_of spec t n = None"
    using False by (auto simp: components_of_def split: option.split yaml.split)
  ultimately show ?thesis by (simp split: option.split)
qed

lemma merge_paths_components: "b_components (merge_paths spec b) = b_components b"
  by (simp add: merge_paths_def split: option.split yaml.split)

lemma merge_xerrors_components: "b_components (merge_xerrors spec b) = b_components b"
  by (simp add: merge_xerrors_def Let_def split: option.split yaml.split)

lemma merge_spec_component:
  assumes "distinct_component_types spec"
  shows "bundled_component (merge_spec spec b) t n
     = (case bundled_component b t n of
          Some v \<Rightarrow> Some v
        | None \<Rightarrow> components_of spec t n)"
proof -
  have "bundled_component (merge_spec spec b) t n
      = bundled_component (merge_components spec (merge_paths spec b)) t n"
    by (simp add: merge_spec_def bundled_component_def merge_xerrors_components)
  also have "\<dots> = (case bundled_component (merge_paths spec b) t n of
          Some v \<Rightarrow> Some v
        | None \<Rightarrow> components_of spec t n)"
    by (rule merge_components_lookup[OF assms])
  also have "bundled_component (merge_paths spec b) t n = bundled_component b t n"
    by (simp add: bundled_component_def merge_paths_components)
  finally show ?thesis .
qed

lemma fold_merge_spec_component:
  "\<forall>spec \<in> set specs. distinct_component_types spec \<Longrightarrow>
   bundled_component (fold merge_spec specs b) t n
     = (case bundled_component b t n of
          Some v \<Rightarrow> Some v
        | None \<Rightarrow> first_writer (map (\<lambda>spec. components_of spec t) specs) n)"
proof (induction specs arbitrary: b)
  case Nil
  then show ?case by (simp split: option.split)
next
  case (Cons spec specs)
  then show ?case
    by (simp add: merge_spec_component split: option.split)
qed



text \<open>Example files for the bundler: \<open>b2.yaml\<close> is \<open>b.yaml\<close> with its maps in another order.\<close>

definition spec_a :: yaml_map where
  "spec_a =
     [(''openapi'', YString ''3.0.0''),
      (''paths'', YMap [(''/a'', YString ''A1''), (''/b'', YString ''B1'')]),
      (''components'', YMap [(''schemas'', YMap [(''X'', YString ''X1'')])])]"

definition spec_b :: yaml_map where
  "spec_b =
     [(''openapi'', YString ''3.0.0''),
      (''paths'', YMap [(''/b'', YString ''B2''), (''/c'', YString ''C2'')]),
      (''components'', YMap [(''schemas'', YMap [(''X'', YString ''X2''), (''Y'', YString ''Y2'')])])]"

definition spec_b2 :: yaml_map where
  "spec_b2 =
     [(''components'', YMap [(''schemas'', YMap [(''Y'', YString ''Y2''), (''X'', YString ''X2'')])]),
      (''paths'', YMap [(''/c'', YString ''C2''), (''/b'', YString ''B2'')]),
      (''openapi'', YString ''3.0.0'')]"

definition spec_errors :: yaml_map where
  "spec_errors =
     [(''openapi'', YString ''3.0.0''),
      (''paths'', YMap [(''/start.simple_call'', YMap [])]),
      (''x-errors'', YMap [(''errors'', YSeq
         [YMap [(''code'', YString ''-32602''), (''mnemonic'', YString ''tts_text_exceeded'')],
          YMap [(''code'', YString ''-32007''),
                (''mnemonic'', YString ''virtual_phone_number_not_found'')]])])]"

definition read_example :: "string \<Rightarrow> string + string" where
  "read_example name =
     (if name = ''a.yaml'' then Inr ''A'' else if name = ''b.yaml'' then Inr ''B''
      else if name = ''b2.yaml'' then Inr ''B2'' else if name = ''errors.yaml'' then Inr ''E''
      else if name = ''broken.yaml'' then Inr ''?''
      else Inl ''no such file'')"

definition unmarshal_example :: "string \<Rightarrow> string + yaml_map" where
  "unmarshal_example content =
     (if content = ''A'' then Inr spec_a else if content = ''B'' then Inr spec_b
      else if content = ''B2'' then Inr spec_b2 else if content = ''E'' then Inr spec_errors
      else Inl ''yaml: did not find expected node content'')"

text \<open>
  Claim C7 fails on the code. Bundling the single file \<open>errors.yaml\<close>, whose error
  list has two entries, gives an error list with the second entry only: the loop stores
  \<open>append(bundledErrorList, sourceError)\<close> with the list it read before the loop, so each
  iteration replaces what the one before stored.
\<close>

theorem C7_xerrors_keep_last_only:
  "b_xerrors (bundle_files read_example unmarshal_example [''errors.yaml'']
                (bundled_init ''T'' ''D''))
     = Some [YMap [(''code'', YString ''-32007''),
                   (''mnemonic'', YString ''virtual_phone_number_not_found'')]]
   \<and> map_of spec_errors ''x-errors'' = Some (YMap [(''errors'', YSeq
         [YMap [(''code'', YString ''-32602''), (''mnemonic'', YString ''tts_text_exceeded'')],
          YMap [(''code'', YString ''-32007''),
                (''mnemonic'', YString ''virtual_phone_number_not_found'')]])])"
  by (simp add: bundle_files_def read_example_def unmarshal_example_def spec_errors_def
      bundled_init_def merge_spec_def merge_paths_def merge_components_def merge_xerrors_def)

text \<open>
  Claim C8. The lookups of the merged paths are those of the first loaded file, in the
  order of the input list, that has the path; the lookups of the merged components,
  by component type and name, are those of the first loaded file that has a component of
  that type and name (the component types of a file are distinct keys, as in every Go
  map). So two runs that load files with the same path maps and component maps, in the
  same order of files, have the same merged paths and the same merged components: the
  order in which the entries of a map are visited does not matter.
\<close>

theorem C8_first_writer_wins:
  assumes "\<forall>spec \<in> set (loaded_specs ReadFile Unmarshal inputFiles). distinct_component_types spec"
  shows
  "map_of (b_paths (bundle_files ReadFile Unmarshal inputFiles (bundled_init title description)))
     = first_writer (map paths_of (loaded_specs ReadFile Unmarshal inputFiles))
   \<and> (\<forall>t. bundled_component
              (bundle_files ReadFile Unmarshal inputFiles (bundled_init title description)) t
          = first_writer (map (\<lambda>spec. components_of spec t)
                            (loaded_specs ReadFile Unmarshal inputFiles)))
   \<and> (\<forall>ReadFile' Unmarshal' inputFiles'.
        (\<forall>spec \<in> set (loaded_specs ReadFile' Unmarshal' inputFiles'). distinct_component_types spec)
        \<and> map paths_of (loaded_specs ReadFile' Unmarshal' inputFiles')
            = map paths_of (loaded_specs ReadFile Unmarshal inputFiles)
        \<and> map components_of (loaded_specs ReadFile' Unmarshal' inputFiles')
            = map components_of (loaded_specs ReadFile Unmarshal inputFiles)
        \<longrightarrow>
          map_of (b_paths (bundle_files ReadFile' Unmarshal' inputFiles'
                             (bundled_init title description)))
            = map_of (b_paths (bundle_files ReadFile Unmarshal inputFiles
                                 (bundled_init title description)))
          \<and> (\<forall>t. bundled_component (bundle_files ReadFile' Unmarshal' inputFiles'
                                        (bundled_init title description)) t
                 = bundled_component (bundle_files ReadFile Unmarshal inputFiles
                                        (bundled_init title description)) t))"
proof -
  have paths: "map_of (b_paths (bundle_files R U fs (bundled_init title description)))
      = first_writer (map paths_of (loaded_specs R U fs))" for R U fs
    by (rule ext)
       (simp add: bundle_files_loaded fold_merge_spec_paths bundled_init_def)
  have comps: "bundled_component (bundle_files R U fs (bundled_init title description)) t
      = first_writer (map (\<lambda>spec. components_of spec t) (loaded_specs R U fs))"
    if "\<forall>spec \<in> set (loaded_specs R U fs). distinct_component_types spec" for R U fs t
  proof (intro ext)
    fix n
    have init: "bundled_component (bundled_init title description) t n = None"
      by (simp add: bundled_component_def bundled_init_def)
    show "bundled_component (bundle_files R U fs (bundled_init title description)) t n
        = first_writer (map (\<lambda>spec. components_of spec t) (loaded_specs R U fs)) n"
      using that by (simp add: bundle_files_loaded fold_merge_spec_component init)
  qed
  have same: "map (\<lambda>spec. components_of spec t) xs = map (\<lambda>spec. components_of spec t) ys"
    if "map components_of xs = map components_of ys" for xs ys :: "yaml_map list" and t
  proof -
    have "map (\<lambda>spec. components_of spec t) xs = map (\<lambda>f. f t) (map components_of xs)"
      by simp
    also have "\<dots> = map (\<lambda>f. f t) (map components_of ys)" using that by simp
    finally show ?thesis by simp
  qed
  show ?thesis
  proof (intro conjI allI impI)
    show "map_of (b_paths (bundle_files ReadFile Unmarshal inputFiles (bundled_init title description)))
        = first_writer (map paths_of (loaded_specs ReadFile Unmarshal inputFiles))"
      by (rule paths)
  next
    fix t
    show "bundled_component
            (bundle_files ReadFile Unmarshal inputFiles (bundled_init title description)) t
        = first_writer (map (\<lambda>spec. components_of spec t)
                          (loaded_specs ReadFile Unmarshal inputFiles))"
      by (rule comps[OF assms])
  next
    fix ReadFile' Unmarshal' inputFiles'
    assume h: "(\<forall>spec \<in> set (loaded_specs ReadFile' Unmarshal' inputFiles'). distinct_component_types spec)
        \<and> map paths_of (loaded_specs ReadFile' Unmarshal' inputFiles')
            = map paths_of (loaded_specs ReadFile Unmarshal inputFiles)
        \<and> map components_of (loaded_specs ReadFile' Unmarshal' inputFiles')
            = map components_of (loaded_specs ReadFile Unmarshal inputFiles)"
    show "map_of (b_paths (bundle_files ReadFile' Unmarshal' inputFiles'
                             (bundled_init title description)))
            = map_of (b_paths (bundle_files ReadFile Unmarshal inputFiles
                                 (bundled_init title description)))"
      using h by (simp add: paths)
  next
    fix ReadFile' Unmarshal' inputFiles' t
    assume h: "(\<forall>spec \<in> set (loaded_specs ReadFile' Unmarshal' inputFiles'). distinct_component_types spec)
        \<and> map paths_of (loaded_specs ReadFile' Unmarshal' inputFiles')
            = map paths_of (loaded_specs ReadFile Unmarshal inputFiles)
        \<and> map components_of (loaded_specs ReadFile' Unmarshal' inputFiles')
            = map components_of (loaded_specs ReadFile Unmarshal inputFiles)"
    then have d': "\<forall>spec \<in> set (loaded_specs ReadFile' Unmarshal' inputFiles'). distinct_component_types spec"
      by blast
    show "bundled_component (bundle_files ReadFile' Unmarshal' inputFiles'
                                        (bundled_init title description)) t
                 = bundled_component (bundle_files ReadFile Unmarshal inputFiles
                                        (bundled_init title description)) t"
      using h same[of "loaded_specs ReadFile' Unmarshal' inputFiles'"
                      "loaded_specs ReadFile Unmarshal inputFiles" t]
      by (simp add: comps[OF d'] comps[OF assms])
  qed
qed


text \<open>
  Witness for C8: \<open>a.yaml\<close> and \<open>b.yaml\<close> both have the path \<open>/b\<close> and the schema \<open>X\<close>; the
  bundle keeps those of \<open>a.yaml\<close>, and takes \<open>/c\<close> and \<open>Y\<close> from \<open>b.yaml\<close>. A missing
  file and a file that does not parse are skipped. The run on \<open>a.yaml\<close> and \<open>b2.yaml\<close>
  gives the same merged maps.
\<close>

theorem C8_first_writer_wins_witness:
  "loaded_specs read_example unmarshal_example
      [''a.yaml'', ''missing.yaml'', ''broken.yaml'', ''b.yaml''] = [spec_a, spec_b]
   \<and> distinct_component_types spec_a \<and> distinct_component_types spec_b
   \<and> map_of (b_paths (bundle_files read_example unmarshal_example
         [''a.yaml'', ''missing.yaml'', ''broken.yaml'', ''b.yaml''] (bundled_init ''T'' ''D'')))
         ''/a'' = Some (YString ''A1'')
   \<and> map_of (b_paths (bundle_files read_example unmarshal_example
         [''a.yaml'', ''missing.yaml'', ''broken.yaml'', ''b.yaml''] (bundled_init ''T'' ''D'')))
         ''/b'' = Some (YString ''B1'')
   \<and> map_of (b_paths (bundle_files read_example unmarshal_example
         [''a.yaml'', ''missing.yaml'', ''broken.yaml'', ''b.yaml''] (bundled_init ''T'' ''D'')))
         ''/c'' = Some (YString ''C2'')
   \<and> bundled_component (bundle_files read_example unmarshal_example
         [''a.yaml'', ''missing.yaml'', ''broken.yaml'', ''b.yaml''] (bundled_init ''T'' ''D''))
         ''schemas'' ''X'' = Some (YString ''X1'')
   \<and> bundled_component (bundle_files read_example unmarshal_example
         [''a.yaml'', ''missing.yaml'', ''broken.yaml'', ''b.yaml''] (bundled_init ''T'' ''D''))
         ''schemas'' ''Y'' = Some (YString ''Y2'')
   \<and> map_of (b_paths (bundle_files read_example unmarshal_example
         [''a.yaml'', ''b2.yaml''] (bundled_init ''T'' ''D'')))
       = map_of (b_paths (bundle_files read_example unmarshal_example
         [''a.yaml'', ''missing.yaml'', ''broken.yaml'', ''b.yaml''] (bundled_init ''T'' ''D'')))
   \<and> bundled_component (bundle_files read_example unmarshal_example
         [''a.yaml'', ''b2.yaml''] (bundled_init ''T'' ''D'')) ''schemas''
       = bundled_component (bundle_files read_example unmarshal_example
         [''a.yaml'', ''missing.yaml'', ''broken.yaml'', ''b.yaml''] (bundled_init ''T'' ''D''))
           ''schemas''"
proof -
  let ?fs = "[''a.yaml'', ''missing.yaml'', ''broken.yaml'', ''b.yaml'']"
  let ?fs2 = "[''a.yaml'', ''b2.yaml'']"
  have l: "loaded_specs read_example unmarshal_example ?fs = [spec_a, spec_b]"
    by (simp add: loaded_specs_def read_example_def unmarshal_example_def
        List.map_filter_simps)
  have l2: "loaded_specs read_example unmarshal_example ?fs2 = [spec_a, spec_b2]"
    by (simp add: loaded_specs_def read_example_def unmarshal_example_def
        List.map_filter_simps)
  have d: "distinct_component_types spec_a" "distinct_component_types spec_b"
    "distinct_component_types spec_b2"
    by (simp_all add: distinct_component_types_def spec_a_def spec_b_def spec_b2_def)
  have hyp: "\<forall>spec \<in> set (loaded_specs read_example unmarshal_example ?fs).
      distinct_component_types spec"
    using d by (simp add: l)
  have hyp2: "\<forall>spec \<in> set (loaded_specs read_example unmarshal_example ?fs2).
      distinct_component_types spec"
    using d by (simp add: l2)
  have pb: "paths_of spec_b2 = paths_of spec_b"
    by (rule ext) (simp add: paths_of_def spec_b_def spec_b2_def)
  have cb: "components_of spec_b2 = components_of spec_b"
    by (intro ext) (simp add: components_of_def spec_b_def spec_b2_def)
  note t = C8_first_writer_wins[OF hyp, of "''T''" "''D''"]
  have p: "map_of (b_paths (bundle_files read_example unmarshal_example ?fs
        (bundled_init ''T'' ''D''))) = first_writer [paths_of spec_a, paths_of spec_b]"
    using t by (simp add: l)
  have c: "bundled_component (bundle_files read_example unmarshal_example ?fs
        (bundled_init ''T'' ''D'')) ''schemas''
      = first_writer [components_of spec_a ''schemas'', components_of spec_b ''schemas'']"
    using t by (simp add: l)
  have same: "map_of (b_paths (bundle_files read_example unmarshal_example ?fs2
         (bundled_init ''T'' ''D'')))
       = map_of (b_paths (bundle_files read_example unmarshal_example ?fs
         (bundled_init ''T'' ''D'')))
     \<and> (\<forall>t. bundled_component (bundle_files read_example unmarshal_example ?fs2
         (bundled_init ''T'' ''D'')) t
       = bundled_component (bundle_files read_example unmarshal_example ?fs
         (bundled_init ''T'' ''D'')) t)"
  proof -
    have "(\<forall>spec \<in> set (loaded_specs read_example unmarshal_example ?fs2).
              distinct_component_types spec)
        \<and> map paths_of (loaded_specs read_example unmarshal_example ?fs2)
            = map paths_of (loaded_specs read_example unmarshal_example ?fs)
        \<and> map components_of (loaded_specs read_example unmarshal_example ?fs2)
            = map components_of (loaded_specs read_example unmarshal_example ?fs)"
      using hyp2 by (simp add: l l2 pb cb)
    with t show ?thesis by blast
  qed
  have v: "first_writer [paths_of spec_a, paths_of spec_b] ''/a'' = Some (YString ''A1'')"
    "first_writer [paths_of spec_a, paths_of spec_b] ''/b'' = Some (YString ''B1'')"
    "first_writer [paths_of spec_a, paths_of spec_b] ''/c'' = Some (YString ''C2'')"
    by (simp_all add: paths_of_def spec_a_def spec_b_def)
  have w: "first_writer [components_of spec_a ''schemas'', components_of spec_b ''schemas'']
        ''X'' = Some (YString ''X1'')"
    "first_writer [components_of spec_a ''schemas'', components_of spec_b ''schemas'']
        ''Y'' = Some (YString ''Y2'')"
    by (simp_all add: components_of_def spec_a_def spec_b_def)
  show ?thesis
    using l d(1,2) v w same by (simp add: p c)
qed


section \<open>Extraction: errors\<close>

definition method_name :: "(string \<Rightarrow> string) \<Rightarrow> node \<Rightarrow> string" where
  \<comment> \<open>the name that \<open>ExtractMethodInfo\<close> reads beside the marker cell; empty when there is none\<close>
  "method_name lower doc =
     (let methodCell = Find lower doc [[]] (TagContains ''th'' marker_method)
      in if length methodCell > 0 then
           (let parentRow = Parent doc methodCell;
                nextCell = Next doc (Find lower doc parentRow (Tag ''th''));
                code = Find lower doc nextCell (Tag ''code'')
            in if length code > 0 then Trim (Text doc code) [CHR 0x22, CHR 0x27] else [])
         else [])"

subsection \<open>The nodes that a selection reaches\<close>






lemma ExtractMethodInfo_cases:
  "(method_name lower doc = [] \<and>
      ExtractMethodInfo lower doc = (None, Some ''method name not found''))
   \<or> (method_name lower doc \<noteq> [] \<and>
      (\<exists>methodInfo. ExtractMethodInfo lower doc = (Some methodInfo, None)
         \<and> m_Name methodInfo = method_name lower doc
         \<and> m_HTTPMethod methodInfo = determineHTTPMethod (method_name lower doc)))"
  by (simp add: ExtractMethodInfo_def method_name_def Let_def)

lemma ExtractRequestParameters_no_error: "snd (ExtractRequestParameters lower doc) = None"
  by (simp add: ExtractRequestParameters_def Let_def)

lemma ExtractResponseParameters_no_error: "snd (ExtractResponseParameters lower doc) = None"
  by (simp add: ExtractResponseParameters_def Let_def)

lemma ExtractJSONExamples_no_error: "snd (snd (ExtractJSONExamples lower Unmarshal doc)) = None"
  by (simp add: ExtractJSONExamples_def Let_def)

lemma ExtractErrorInformation_no_error: "snd (ExtractErrorInformation lower doc) = None"
  by (simp add: ExtractErrorInformation_def Let_def)

lemma ExtractErrorInformation_some: "fst (ExtractErrorInformation lower doc) \<noteq> None"
  by (simp add: ExtractErrorInformation_def Let_def)

lemma ParseHTML_cases:
  assumes "NewDocumentFromReader htmlContent = Inr doc"
  shows "(method_name lower doc = [] \<and>
      ParseHTML lower NewDocumentFromReader Unmarshal htmlContent
        = (None, Some ''failed to extract method info: method name not found''))
   \<or> (method_name lower doc \<noteq> [] \<and>
      (\<exists>methodInfo.
         ExtractMethodInfo lower doc = (Some methodInfo, None) \<and>
         ParseHTML lower NewDocumentFromReader Unmarshal htmlContent
           = (Some \<lparr>a_MethodInfo = Some methodInfo,
                     a_RequestParams = fst (ExtractRequestParameters lower doc),
                     a_ResponseParams = fst (ExtractResponseParameters lower doc),
                     a_RequestJSON = json_example lower Unmarshal doc marker_request_example,
                     a_ResponseJSON = json_example lower Unmarshal doc marker_response_example,
                     a_ErrorInfo = fst (ExtractErrorInformation lower doc)\<rparr>,
              None)))"
proof -
  obtain rq where rq: "ExtractRequestParameters lower doc = (rq, None)"
    using ExtractRequestParameters_no_error[of lower doc]
    by (cases "ExtractRequestParameters lower doc") auto
  obtain rs where rs: "ExtractResponseParameters lower doc = (rs, None)"
    using ExtractResponseParameters_no_error[of lower doc]
    by (cases "ExtractResponseParameters lower doc") auto
  obtain ei where ei: "ExtractErrorInformation lower doc = (ei, None)"
    using ExtractErrorInformation_no_error[of lower doc]
    by (cases "ExtractErrorInformation lower doc") auto
  have js: "ExtractJSONExamples lower Unmarshal doc
      = (json_example lower Unmarshal doc marker_request_example,
         json_example lower Unmarshal doc marker_response_example, None)"
    by (simp add: ExtractJSONExamples_def Let_def)
  from ExtractMethodInfo_cases[of lower doc] show ?thesis
  proof
    assume "method_name lower doc = [] \<and>
      ExtractMethodInfo lower doc = (None, Some ''method name not found'')"
    then show ?thesis using assms by (simp add: ParseHTML_def)
  next
    assume "method_name lower doc \<noteq> [] \<and>
      (\<exists>methodInfo. ExtractMethodInfo lower doc = (Some methodInfo, None)
         \<and> m_Name methodInfo = method_name lower doc
         \<and> m_HTTPMethod methodInfo = determineHTTPMethod (method_name lower doc))"
    then obtain methodInfo where m: "method_name lower doc \<noteq> []"
      "ExtractMethodInfo lower doc = (Some methodInfo, None)" by blast
    then show ?thesis using assms rq rs ei js by (simp add: ParseHTML_def)
  qed
qed



definition example_text :: "(string \<Rightarrow> string) \<Rightarrow> node \<Rightarrow> string \<Rightarrow> string option" where
  \<comment> \<open>the text of the code block that follows the heading with the marker, if there is one\<close>
  "example_text lower doc marker =
     (let header = Find lower doc [[]] (TagContains ''h4'' marker);
          codeBlock = Next doc header;
          code = Find lower doc codeBlock (Tag ''code'')
      in if length header > 0 \<and> Is lower doc codeBlock (Tag ''pre'') \<and> length code > 0
         then Some (Text doc code) else None)"

lemma json_example_eq:
  "json_example lower Unmarshal doc marker =
     (case example_text lower doc marker of
        None \<Rightarrow> None
      | Some jsonStr \<Rightarrow> (case Unmarshal jsonStr of Inl err \<Rightarrow> Some [] | Inr m \<Rightarrow> m))"
  by (simp add: json_example_def example_text_def Let_def)




















subsection \<open>The method record\<close>










subsection \<open>Example pages\<close>

text \<open>
  Example documents, as \<open>html.Parse\<close> builds them: a page without the method marker, a
  page with the method table only, and a page with the method table, a request table,
  a response table and a request example that is not JSON.
\<close>

definition html_index :: string where
  "html_index = ''<h1>Index</h1>''"

definition doc_index :: node where
  "doc_index =
     DocumentNode [ElementNode ''html'' [ElementNode ''head'' [],
       ElementNode ''body'' [ElementNode ''h1'' [TextNode ''Index'']]]]"

definition html_method :: string where
  "html_method =
     ''<table><tr><th>'' @ marker_method @ ''</th><th><code>get.calls</code></th></tr></table>''"

definition doc_method :: node where
  "doc_method =
     DocumentNode [ElementNode ''html'' [ElementNode ''head'' [],
       ElementNode ''body'' [ElementNode ''table'' [ElementNode ''tbody'' [
         ElementNode ''tr'' [ElementNode ''th'' [TextNode marker_method],
           ElementNode ''th'' [ElementNode ''code'' [TextNode ''get.calls'']]]]]]]]"

definition html_example :: string where
  "html_example =
     ''<table><tr><th>'' @ marker_method @ ''</th><th><code>get.calls</code></th></tr></table>''
     @ ''<h4>'' @ marker_request_example @ ''</h4><pre><code>{oops</code></pre>''"

definition doc_example :: node where
  "doc_example =
     DocumentNode [ElementNode ''html'' [ElementNode ''head'' [],
       ElementNode ''body'' [
         ElementNode ''table'' [ElementNode ''tbody'' [
           ElementNode ''tr'' [ElementNode ''th'' [TextNode marker_method],
             ElementNode ''th'' [ElementNode ''code'' [TextNode ''get.calls'']]]]],
         ElementNode ''h4'' [TextNode marker_request_example],
         ElementNode ''pre'' [ElementNode ''code'' [TextNode ''{oops'']]]]]"

definition parse_example :: "string \<Rightarrow> string + node" where
  "parse_example htmlContent =
     (if htmlContent = html_index then Inr doc_index
      else if htmlContent = html_method then Inr doc_method
      else if htmlContent = html_example then Inr doc_example
      else Inl ''unexpected EOF'')"

definition json_unmarshal_example :: "string \<Rightarrow> string + (string \<times> json) list option" where
  "json_unmarshal_example jsonStr =
     (if jsonStr = ''{}'' then Inr (Some [])
      else if jsonStr = ''null'' then Inr None
      else Inl ''invalid character'')"

lemma method_name_index: "method_name ToLower_ru doc_index = []" by code_simp
lemma method_name_method: "method_name ToLower_ru doc_method = ''get.calls''" by code_simp
lemma method_name_example: "method_name ToLower_ru doc_example = ''get.calls''" by code_simp
lemma example_text_example: "example_text ToLower_ru doc_example marker_request_example = Some ''{oops''" by code_simp
lemma parse_example_index: "parse_example html_index = Inr doc_index" by code_simp
lemma parse_example_method: "parse_example html_method = Inr doc_method" by code_simp
lemma parse_example_example: "parse_example html_example = Inr doc_example" by code_simp



















text \<open>
  Claim C9. \<open>ExtractJSONExamples\<close> never returns an error. When the heading of an example
  is followed by a code block whose text the JSON decoder rejects, that example is the
  empty map. The error that \<open>ParseHTML\<close> returns does not depend on the JSON decoder at
  all, and is \<open>nil\<close> whenever a method name is found.
\<close>

theorem C9_json_examples_never_fail:
  "snd (snd (ExtractJSONExamples lower Unmarshal doc)) = None
   \<and> (\<forall>jsonStr err.
        example_text lower doc marker_request_example = Some jsonStr
        \<and> Unmarshal jsonStr = Inl err
        \<longrightarrow> fst (ExtractJSONExamples lower Unmarshal doc) = Some [])
   \<and> (\<forall>jsonStr err.
        example_text lower doc marker_response_example = Some jsonStr
        \<and> Unmarshal jsonStr = Inl err
        \<longrightarrow> fst (snd (ExtractJSONExamples lower Unmarshal doc)) = Some [])
   \<and> (\<forall>NewDocumentFromReader htmlContent.
        NewDocumentFromReader htmlContent = Inr doc \<longrightarrow>
          (snd (ParseHTML lower NewDocumentFromReader Unmarshal htmlContent) \<noteq> None
             \<longleftrightarrow> method_name lower doc = [])
          \<and> (\<forall>Unmarshal'.
                snd (ParseHTML lower NewDocumentFromReader Unmarshal' htmlContent)
                  = snd (ParseHTML lower NewDocumentFromReader Unmarshal htmlContent)))"
proof (intro conjI allI impI)
  show "snd (snd (ExtractJSONExamples lower Unmarshal doc)) = None"
    by (rule ExtractJSONExamples_no_error)
next
  fix jsonStr err
  assume "example_text lower doc marker_request_example = Some jsonStr
        \<and> Unmarshal jsonStr = Inl err"
  then show "fst (ExtractJSONExamples lower Unmarshal doc) = Some []"
    by (simp add: ExtractJSONExamples_def Let_def json_example_eq)
next
  fix jsonStr err
  assume "example_text lower doc marker_response_example = Some jsonStr
        \<and> Unmarshal jsonStr = Inl err"
  then show "fst (snd (ExtractJSONExamples lower Unmarshal doc)) = Some []"
    by (simp add: ExtractJSONExamples_def Let_def json_example_eq)
next
  fix NewDocumentFromReader :: "string \<Rightarrow> string + node" and htmlContent
  assume p: "NewDocumentFromReader htmlContent = Inr doc"
  show "snd (ParseHTML lower NewDocumentFromReader Unmarshal htmlContent) \<noteq> None
             \<longleftrightarrow> method_name lower doc = []"
    using ParseHTML_cases[where NewDocumentFromReader=NewDocumentFromReader
        and htmlContent=htmlContent and doc=doc and lower=lower and Unmarshal=Unmarshal, OF p]
    by auto
next
  fix NewDocumentFromReader :: "string \<Rightarrow> string + node" and htmlContent Unmarshal'
  assume p: "NewDocumentFromReader htmlContent = Inr doc"
  show "snd (ParseHTML lower NewDocumentFromReader Unmarshal' htmlContent)
                  = snd (ParseHTML lower NewDocumentFromReader Unmarshal htmlContent)"
    using ParseHTML_cases[where NewDocumentFromReader=NewDocumentFromReader
        and htmlContent=htmlContent and doc=doc and lower=lower and Unmarshal=Unmarshal, OF p]
      ParseHTML_cases[where NewDocumentFromReader=NewDocumentFromReader
        and htmlContent=htmlContent and doc=doc and lower=lower and Unmarshal=Unmarshal', OF p]
    by auto
qed

text \<open>
  Witness for C9: in the example page the request example is the text \<open>{oops\<close>, which
  the decoder rejects; the example is the empty map, the response example is \<open>nil\<close>, and
  the page is extracted without error.
\<close>

theorem C9_json_examples_witness:
  "example_text ToLower_ru doc_example marker_request_example = Some ''{oops''
   \<and> json_unmarshal_example ''{oops'' = Inl ''invalid character''
   \<and> fst (ExtractJSONExamples ToLower_ru json_unmarshal_example doc_example) = Some []
   \<and> parse_example html_example = Inr doc_example
   \<and> snd (ParseHTML ToLower_ru parse_example json_unmarshal_example html_example) = None"
proof -
  note t = C9_json_examples_never_fail[of ToLower_ru json_unmarshal_example doc_example]
  have u: "json_unmarshal_example ''{oops'' = Inl ''invalid character''"
    by (simp add: json_unmarshal_example_def)
  have r: "fst (ExtractJSONExamples ToLower_ru json_unmarshal_example doc_example) = Some []"
    using t[THEN conjunct2, THEN conjunct1, rule_format, of "''{oops''" "''invalid character''"]
      example_text_example u by simp
  have s: "snd (ParseHTML ToLower_ru parse_example json_unmarshal_example html_example) = None"
    using t[THEN conjunct2, THEN conjunct2, THEN conjunct2, rule_format,
            of parse_example html_example, OF parse_example_example, THEN conjunct1]
      method_name_example by simp
  from example_text_example u r parse_example_example s show ?thesis by (intro conjI)
qed

section \<open>Extraction: parameter tables\<close>

definition row_name :: "(string \<Rightarrow> string) \<Rightarrow> node \<Rightarrow> selection \<Rightarrow> string" where
  \<comment> \<open>the name that \<open>parseParameterRow\<close> reads from the first cell of a row\<close>
  "row_name lower doc cells =
     (let nameCell = Eq cells 0;
          nameCode = Find lower doc nameCell (Tag ''code'')
      in if length nameCode > 0 then TrimSpace (Text doc nameCode)
         else TrimSpace (Text doc nameCell))"

definition table_found :: "(string \<Rightarrow> string) \<Rightarrow> node \<Rightarrow> selection \<Rightarrow> bool" where
  "table_found lower doc table \<longleftrightarrow> table \<noteq> [] \<and> Is lower doc table (Tag ''table'')"

definition table_after :: "(string \<Rightarrow> string) \<Rightarrow> node \<Rightarrow> string \<Rightarrow> selection" where
  \<comment> \<open>what follows the headings with the marker\<close>
  "table_after lower doc marker = Next doc (Find lower doc [[]] (TagContains ''h4'' marker))"

definition row_cells :: "(string \<Rightarrow> string) \<Rightarrow> node \<Rightarrow> selection \<Rightarrow> nat \<Rightarrow> selection" where
  \<comment> \<open>the cells of the row with index \<open>i\<close> of a table\<close>
  "row_cells lower doc table i =
     Find lower doc [Find lower doc table (Tag ''tr'') ! i] (Tag ''td'')"

definition rows_extracted ::
  "(string \<Rightarrow> string) \<Rightarrow> node \<Rightarrow> selection \<Rightarrow> nat \<Rightarrow> bool
     \<Rightarrow> (string \<times> Parameter) list \<Rightarrow> bool" where
  "rows_extracted lower doc table minCells isRequest params \<longleftrightarrow>
     (\<forall>i. 0 < i \<and> i < length (Find lower doc table (Tag ''tr''))
          \<and> minCells \<le> length (row_cells lower doc table i)
          \<and> row_name lower doc (row_cells lower doc table i) \<noteq> []
          \<longrightarrow> (\<exists>p. map_of params (row_name lower doc (row_cells lower doc table i)) = Some p))
     \<and> (\<forall>i. 0 < i \<and> i < length (Find lower doc table (Tag ''tr''))
          \<and> minCells \<le> length (row_cells lower doc table i)
          \<and> row_name lower doc (row_cells lower doc table i) \<noteq> []
          \<and> (\<forall>j. i < j \<and> j < length (Find lower doc table (Tag ''tr''))
                 \<and> minCells \<le> length (row_cells lower doc table j)
                 \<longrightarrow> row_name lower doc (row_cells lower doc table j)
                       \<noteq> row_name lower doc (row_cells lower doc table i))
          \<longrightarrow> map_of params (row_name lower doc (row_cells lower doc table i))
                = parseParameterRow lower doc (row_cells lower doc table i) isRequest)
     \<and> (\<forall>name p. map_of params name = Some p \<longrightarrow>
          (\<exists>i. 0 < i \<and> i < length (Find lower doc table (Tag ''tr''))
             \<and> minCells \<le> length (row_cells lower doc table i)
             \<and> parseParameterRow lower doc (row_cells lower doc table i) isRequest = Some p
             \<and> row_name lower doc (row_cells lower doc table i) = name \<and> name \<noteq> []
             \<and> (\<forall>j. i < j \<and> j < length (Find lower doc table (Tag ''tr''))
                    \<and> minCells \<le> length (row_cells lower doc table j)
                    \<longrightarrow> row_name lower doc (row_cells lower doc table j) \<noteq> name)))
     \<and> distinct (map fst params)"

lemma fold_cond_update_lookup_Nil:
  "map_of (fold (\<lambda>x r. if P x then AList.update (k x) (v x) r else r) xs []) c =
     (case find (\<lambda>x. P x \<and> k x = c) (rev xs) of
        Some x \<Rightarrow> Some (v x)
      | None \<Rightarrow> None)"
  by (simp add: fold_cond_update_lookup split: option.split)

lemma find_rev_Some:
  "find P (rev xs) = Some x \<Longrightarrow>
     \<exists>i. i < length xs \<and> xs ! i = x \<and> P x \<and> (\<forall>j. i < j \<and> j < length xs \<longrightarrow> \<not> P (xs ! j))"
proof (induction xs rule: rev_induct)
  case Nil
  then show ?case by simp
next
  case (snoc a xs)
  show ?case
  proof (cases "P a")
    case True
    then have x: "x = a" using snoc.prems by simp
    have v: "\<not> P ((xs @ [a]) ! j)" if "length xs < j \<and> j < length (xs @ [a])" for j
    proof -
      from that have "length xs < j" "j < Suc (length xs)" by simp_all
      then show ?thesis by arith
    qed
    have "length xs < length (xs @ [a]) \<and> (xs @ [a]) ! length xs = x \<and> P x"
      using True x by simp
    with v show ?thesis by blast
  next
    case False
    then have "find P (rev xs) = Some x" using snoc.prems by simp
    from snoc.IH[OF this] obtain i where i: "i < length xs" "xs ! i = x" "P x"
      "\<forall>j. i < j \<and> j < length xs \<longrightarrow> \<not> P (xs ! j)" by blast
    have "\<not> P ((xs @ [a]) ! j)" if "i < j \<and> j < length (xs @ [a])" for j
    proof (cases "j < length xs")
      case True
      then show ?thesis using i(4) that by (simp add: nth_append)
    next
      case False
      then have "j = length xs" using that by simp
      then show ?thesis using \<open>\<not> P a\<close> by simp
    qed
    then have "i < length (xs @ [a]) \<and> (xs @ [a]) ! i = x \<and> P x
        \<and> (\<forall>j. i < j \<and> j < length (xs @ [a]) \<longrightarrow> \<not> P ((xs @ [a]) ! j))"
      using i by (simp add: nth_append)
    then show ?thesis by blast
  qed
qed

lemma parseParameterRow_None_iff:
  "parseParameterRow lower doc cells isRequest = None
     \<longleftrightarrow> length cells < 3 \<or> row_name lower doc cells = []"
  by (simp add: parseParameterRow_def row_name_def Let_def split: prod.split)

lemma parseParameterRow_Some:
  "parseParameterRow lower doc cells isRequest = Some p \<Longrightarrow>
     3 \<le> length cells
     \<and> p_Name p = row_name lower doc cells \<and> p_Name p \<noteq> []
     \<and> p_Type p = TrimSpace (Text doc (Eq cells 1))
     \<and> p_Required p = (lower (TrimSpace (Text doc (Eq cells 2))) = word_yes)
     \<and> (isRequest \<and> 5 \<le> length cells \<longrightarrow>
          p_AllowedValues p = TrimSpace (Text doc (Eq cells 3))
          \<and> p_Description p = TrimSpace (Text doc (Eq cells 4)))
     \<and> (\<not> isRequest \<and> 4 \<le> length cells \<longrightarrow>
          p_AllowedValues p = [] \<and> p_Description p = TrimSpace (Text doc (Eq cells 3)))
     \<and> (isRequest \<and> 4 \<le> length cells \<and> \<not> 5 \<le> length cells \<longrightarrow>
          p_AllowedValues p = []
          \<and> p_Description p = TrimSpace (Text doc (Eq cells (length cells - 1))))
     \<and> (length cells = 3 \<longrightarrow> p_AllowedValues p = [] \<and> p_Description p = [])"
  by (auto simp: parseParameterRow_def row_name_def Let_def split: if_splits prod.splits)

lemma parameter_rows_fold:
  "parameter_rows lower doc table minCells isRequest =
     fold (\<lambda>x params.
             if (fst x \<noteq> 0 \<and> minCells \<le> length (Find lower doc [snd x] (Tag ''td''))
                 \<and> parseParameterRow lower doc (Find lower doc [snd x] (Tag ''td'')) isRequest \<noteq> None)
             then AList.update
                    (p_Name (the (parseParameterRow lower doc (Find lower doc [snd x] (Tag ''td'')) isRequest)))
                    (the (parseParameterRow lower doc (Find lower doc [snd x] (Tag ''td'')) isRequest))
                    params
             else params)
       (enumerate 0 (Find lower doc table (Tag ''tr''))) []"
proof -
  have eq: "(\<lambda>(i, s) params.
             if i = 0 then params
             else
               (let cells = Find lower doc [s] (Tag ''td'')
                in if length cells \<ge> minCells then
                     (case parseParameterRow lower doc cells isRequest of
                        Some param \<Rightarrow> AList.update (p_Name param) param params
                      | None \<Rightarrow> params)
                   else params))
    = (\<lambda>x params.
             if (fst x \<noteq> 0 \<and> minCells \<le> length (Find lower doc [snd x] (Tag ''td''))
                 \<and> parseParameterRow lower doc (Find lower doc [snd x] (Tag ''td'')) isRequest \<noteq> None)
             then AList.update
                    (p_Name (the (parseParameterRow lower doc (Find lower doc [snd x] (Tag ''td'')) isRequest)))
                    (the (parseParameterRow lower doc (Find lower doc [snd x] (Tag ''td'')) isRequest))
                    params
             else params)"
    by (intro ext) (auto simp: Let_def split: prod.split option.split)
  show ?thesis unfolding parameter_rows_def eq by (rule refl)
qed

lemma parameter_rows_lookup:
  "map_of (parameter_rows lower doc table minCells isRequest) name =
     (case find (\<lambda>x. (fst x \<noteq> 0 \<and> minCells \<le> length (Find lower doc [snd x] (Tag ''td''))
                 \<and> parseParameterRow lower doc (Find lower doc [snd x] (Tag ''td'')) isRequest \<noteq> None)
               \<and> p_Name (the (parseParameterRow lower doc (Find lower doc [snd x] (Tag ''td'')) isRequest)) = name)
            (rev (enumerate 0 (Find lower doc table (Tag ''tr'')))) of
        Some x \<Rightarrow> Some (the (parseParameterRow lower doc (Find lower doc [snd x] (Tag ''td'')) isRequest))
      | None \<Rightarrow> None)"
  unfolding parameter_rows_fold
  by (rule fold_cond_update_lookup_Nil)

lemma parameter_rows_distinct:
  "distinct (map fst (parameter_rows lower doc table minCells isRequest))"
  unfolding parameter_rows_fold
  by (rule fold_cond_update_distinct) simp


lemma parameter_rows_extracted:
  assumes "3 \<le> minCells"
  shows "rows_extracted lower doc table minCells isRequest
           (parameter_rows lower doc table minCells isRequest)"
proof -
  let ?rows = "Find lower doc table (Tag ''tr'')"
  let ?cells = "\<lambda>s. Find lower doc [s] (Tag ''td'')"
  let ?parse = "\<lambda>s. parseParameterRow lower doc (?cells s) isRequest"
  let ?P = "\<lambda>name x. (fst x \<noteq> 0 \<and> minCells \<le> length (?cells (snd x)) \<and> ?parse (snd x) \<noteq> None)
               \<and> p_Name (the (?parse (snd x))) = name"
  let ?params = "parameter_rows lower doc table minCells isRequest"
  have look: "map_of ?params name =
      (case find (?P name) (rev (enumerate 0 ?rows)) of
         Some x \<Rightarrow> Some (the (?parse (snd x))) | None \<Rightarrow> None)" for name
    by (rule parameter_rows_lookup)
  have p1: "\<exists>p. map_of ?params (row_name lower doc (row_cells lower doc table i)) = Some p"
    if h: "0 < i \<and> i < length ?rows \<and> minCells \<le> length (row_cells lower doc table i)
          \<and> row_name lower doc (row_cells lower doc table i) \<noteq> []" for i
  proof -
    let ?x = "(i, ?rows ! i)"
    have c: "?cells (?rows ! i) = row_cells lower doc table i"
      by (simp add: row_cells_def)
    have "?parse (?rows ! i) \<noteq> None"
      using h assms by (simp add: c parseParameterRow_None_iff)
    then obtain p where p: "?parse (?rows ! i) = Some p" by blast
    have n: "p_Name p = row_name lower doc (row_cells lower doc table i)"
      using parseParameterRow_Some[OF p] unfolding c by blast
    have mem: "?x \<in> set (rev (enumerate 0 ?rows))"
      using h by (simp add: in_set_enumerate_eq)
    have "?P (row_name lower doc (row_cells lower doc table i)) ?x"
      using h p n by (simp add: c)
    with mem have "find (?P (row_name lower doc (row_cells lower doc table i)))
        (rev (enumerate 0 ?rows)) \<noteq> None"
      unfolding find_None_iff by blast
    then show ?thesis
      unfolding look by (auto split: option.split)
  qed
  have p2: "\<exists>i. 0 < i \<and> i < length ?rows
             \<and> minCells \<le> length (row_cells lower doc table i)
             \<and> parseParameterRow lower doc (row_cells lower doc table i) isRequest = Some p
             \<and> row_name lower doc (row_cells lower doc table i) = name \<and> name \<noteq> []
             \<and> (\<forall>j. i < j \<and> j < length ?rows
                    \<and> minCells \<le> length (row_cells lower doc table j)
                    \<longrightarrow> row_name lower doc (row_cells lower doc table j) \<noteq> name)"
    if m: "map_of ?params name = Some p" for name p
  proof -
    from m obtain x where f: "find (?P name) (rev (enumerate 0 ?rows)) = Some x"
      and px: "p = the (?parse (snd x))"
      unfolding look by (auto split: option.splits)
    from find_rev_Some[OF f] obtain i where
      il: "i < length (enumerate 0 ?rows)" and xi: "enumerate 0 ?rows ! i = x"
      and P: "?P name x"
      and later: "\<forall>j. i < j \<and> j < length (enumerate 0 ?rows)
                     \<longrightarrow> \<not> ?P name (enumerate 0 ?rows ! j)"
      by blast
    from il have i: "i < length ?rows" by simp
    have x: "x = (i, ?rows ! i)" using xi i by (simp add: nth_enumerate_eq)
    have c: "?cells (?rows ! j) = row_cells lower doc table j" for j
      by (simp add: row_cells_def)
    from P x have "?parse (?rows ! i) \<noteq> None" by simp
    then have ps: "?parse (?rows ! i) = Some p" using px x by auto
    have nm: "p_Name p = name" using P x ps by simp
    have "p_Name p = row_name lower doc (row_cells lower doc table i) \<and> p_Name p \<noteq> []"
      using parseParameterRow_Some[OF ps] unfolding c by blast
    then have n1: "row_name lower doc (row_cells lower doc table i) = name \<and> name \<noteq> []"
      using nm by auto
    have n2: "0 < i \<and> minCells \<le> length (row_cells lower doc table i)"
      using P x by (simp add: c)
    have n3: "parseParameterRow lower doc (row_cells lower doc table i) isRequest = Some p"
      using ps by (simp add: c)
    have n4: "row_name lower doc (row_cells lower doc table j) \<noteq> name"
      if j: "i < j \<and> j < length ?rows \<and> minCells \<le> length (row_cells lower doc table j)" for j
    proof
      assume e: "row_name lower doc (row_cells lower doc table j) = name"
      have "?parse (?rows ! j) \<noteq> None"
        using j assms e n1 by (simp add: c parseParameterRow_None_iff)
      then obtain p' where p': "?parse (?rows ! j) = Some p'" by blast
      have "p_Name p' = row_name lower doc (row_cells lower doc table j)"
        using parseParameterRow_Some[OF p'] unfolding c by blast
      then have Pj: "?P name (j, ?rows ! j)"
        using j p' e by (simp add: c)
      have en: "enumerate 0 ?rows ! j = (j, ?rows ! j)"
        using j by (simp add: nth_enumerate_eq)
      have "i < j \<and> j < length (enumerate 0 ?rows)" using j by simp
      with later have "\<not> ?P name (enumerate 0 ?rows ! j)" by blast
      then have "\<not> ?P name (j, ?rows ! j)" unfolding en .
      from this Pj show False by (rule notE)
    qed
    from n1 n2 n3 n4 i show ?thesis by blast
  qed
  have p4: "map_of ?params (row_name lower doc (row_cells lower doc table i))
                = parseParameterRow lower doc (row_cells lower doc table i) isRequest"
    if h: "0 < i \<and> i < length ?rows \<and> minCells \<le> length (row_cells lower doc table i)
          \<and> row_name lower doc (row_cells lower doc table i) \<noteq> []
          \<and> (\<forall>j. i < j \<and> j < length ?rows
                 \<and> minCells \<le> length (row_cells lower doc table j)
                 \<longrightarrow> row_name lower doc (row_cells lower doc table j)
                       \<noteq> row_name lower doc (row_cells lower doc table i))" for i
  proof -
    let ?name = "row_name lower doc (row_cells lower doc table i)"
    from p1[of i] h obtain p where p: "map_of ?params ?name = Some p" by blast
    from p2[OF p] obtain k where k: "0 < k" "k < length ?rows"
      "minCells \<le> length (row_cells lower doc table k)"
      "parseParameterRow lower doc (row_cells lower doc table k) isRequest = Some p"
      "row_name lower doc (row_cells lower doc table k) = ?name"
      "\<forall>j. k < j \<and> j < length ?rows
            \<and> minCells \<le> length (row_cells lower doc table j)
            \<longrightarrow> row_name lower doc (row_cells lower doc table j) \<noteq> ?name"
      by blast
    have "\<not> i < k" using h k(2,3,5) by blast
    moreover have "\<not> k < i" using h k(6) by blast
    ultimately have "k = i" by arith
    then show ?thesis using p k(4) by simp
  qed
  have p3: "distinct (map fst ?params)"
    by (rule parameter_rows_distinct)
  show ?thesis
    unfolding rows_extracted_def
    by (intro conjI allI impI; (rule p1 p4 p2 p3; assumption))
qed

lemma Next_Nil: "Next doc [] = []"
  by (simp add: Next_def uniq_def List.map_filter_simps)

lemma ExtractRequestParameters_eq:
  "ExtractRequestParameters lower doc =
     (if table_found lower doc (table_after lower doc marker_request_params)
      then parameter_rows lower doc (table_after lower doc marker_request_params) 4 True
      else [], None)"
  by (auto simp: ExtractRequestParameters_def table_found_def table_after_def Let_def Next_Nil)

lemma ExtractResponseParameters_eq:
  "ExtractResponseParameters lower doc =
     (if table_found lower doc (table_after lower doc marker_response_params)
      then parameter_rows lower doc (table_after lower doc marker_response_params) 3 False
      else [], None)"
  by (auto simp: ExtractResponseParameters_def table_found_def table_after_def Let_def Next_Nil)


text \<open>
  An example page with a request table (header row, a row of five cells, a row of three
  cells, a row of five cells with an empty name) and a response table (header row, a
  row of four cells, a row of three cells).
\<close>

definition cell :: "string \<Rightarrow> node" where
  "cell s = ElementNode ''td'' [TextNode s]"

definition code_cell :: "string \<Rightarrow> node" where
  "code_cell s = ElementNode ''td'' [ElementNode ''code'' [TextNode s]]"

definition head_cell :: "string \<Rightarrow> node" where
  "head_cell s = ElementNode ''th'' [TextNode s]"

definition doc_tables :: node where
  "doc_tables =
     DocumentNode [ElementNode ''html'' [ElementNode ''head'' [],
       ElementNode ''body'' [
         ElementNode ''h4'' [TextNode marker_request_params],
         ElementNode ''table'' [ElementNode ''tbody'' [
           ElementNode ''tr'' [head_cell ''Name'', head_cell ''Type'', head_cell ''Required'',
                               head_cell ''Allowed'', head_cell ''Description''],
           ElementNode ''tr'' [code_cell ''access_token'', cell ''string'', cell word_yes,
                               ElementNode ''td'' [], cell ''Key''],
           ElementNode ''tr'' [code_cell ''short'', cell ''string'', cell word_yes],
           ElementNode ''tr'' [code_cell '' '', cell ''string'', cell word_yes,
                               ElementNode ''td'' [], cell ''No name'']]],
         ElementNode ''h4'' [TextNode marker_response_params],
         ElementNode ''table'' [ElementNode ''tbody'' [
           ElementNode ''tr'' [head_cell ''Name'', head_cell ''Type'', head_cell ''Required'',
                               head_cell ''Description''],
           ElementNode ''tr'' [cell ''call_session_id'', cell ''number'', cell word_yes,
                               cell ''Id''],
           ElementNode ''tr'' [cell ''three'', cell ''number'', cell ''no'']]]]]]"

lemma doc_tables_request:
  "table_found ToLower_ru doc_tables (table_after ToLower_ru doc_tables marker_request_params)"
  "length (Find ToLower_ru doc_tables
             (table_after ToLower_ru doc_tables marker_request_params) (Tag ''tr'')) = 4"
  "length (row_cells ToLower_ru doc_tables
             (table_after ToLower_ru doc_tables marker_request_params) 1) = 5"
  "row_name ToLower_ru doc_tables (row_cells ToLower_ru doc_tables
      (table_after ToLower_ru doc_tables marker_request_params) 1) = ''access_token''"
  "length (row_cells ToLower_ru doc_tables
             (table_after ToLower_ru doc_tables marker_request_params) 2) = 3"
  "row_name ToLower_ru doc_tables (row_cells ToLower_ru doc_tables
      (table_after ToLower_ru doc_tables marker_request_params) 2) = ''short''"
  "map fst (fst (ExtractRequestParameters ToLower_ru doc_tables)) = [''access_token'']"
  by code_simp+

lemma doc_tables_response:
  "table_found ToLower_ru doc_tables (table_after ToLower_ru doc_tables marker_response_params)"
  "length (Find ToLower_ru doc_tables
             (table_after ToLower_ru doc_tables marker_response_params) (Tag ''tr'')) = 3"
  "length (row_cells ToLower_ru doc_tables
             (table_after ToLower_ru doc_tables marker_response_params) 2) = 3"
  "row_name ToLower_ru doc_tables (row_cells ToLower_ru doc_tables
      (table_after ToLower_ru doc_tables marker_response_params) 2) = ''three''"
  by code_simp+

text \<open>
  An example page whose response table has two rows with the name \<open>id\<close>.
\<close>

definition doc_dup :: node where
  "doc_dup =
     DocumentNode [ElementNode ''html'' [ElementNode ''head'' [],
       ElementNode ''body'' [
         ElementNode ''h4'' [TextNode marker_response_params],
         ElementNode ''table'' [ElementNode ''tbody'' [
           ElementNode ''tr'' [head_cell ''Name'', head_cell ''Type'', head_cell ''Required'',
                               head_cell ''Description''],
           ElementNode ''tr'' [cell ''id'', cell ''string'', cell word_yes, cell ''First''],
           ElementNode ''tr'' [cell ''id'', cell ''number'', cell ''no'', cell ''Second'']]]]]]"

lemma doc_dup_response:
  "table_found ToLower_ru doc_dup (table_after ToLower_ru doc_dup marker_response_params)"
  "length (Find ToLower_ru doc_dup
             (table_after ToLower_ru doc_dup marker_response_params) (Tag ''tr'')) = 3"
  "length (row_cells ToLower_ru doc_dup
             (table_after ToLower_ru doc_dup marker_response_params) 1) = 4"
  "row_name ToLower_ru doc_dup (row_cells ToLower_ru doc_dup
      (table_after ToLower_ru doc_dup marker_response_params) 1) = ''id''"
  "length (row_cells ToLower_ru doc_dup
             (table_after ToLower_ru doc_dup marker_response_params) 2) = 4"
  "row_name ToLower_ru doc_dup (row_cells ToLower_ru doc_dup
      (table_after ToLower_ru doc_dup marker_response_params) 2) = ''id''"
  "parseParameterRow ToLower_ru doc_dup (row_cells ToLower_ru doc_dup
      (table_after ToLower_ru doc_dup marker_response_params) 1) False
     = Some \<lparr>p_Name = ''id'', p_Type = ''string'', p_Required = True,
              p_Description = ''First'', p_AllowedValues = [], p_ArrayItemType = []\<rparr>"
  "parseParameterRow ToLower_ru doc_dup (row_cells ToLower_ru doc_dup
      (table_after ToLower_ru doc_dup marker_response_params) 2) False
     = Some \<lparr>p_Name = ''id'', p_Type = ''number'', p_Required = False,
              p_Description = ''Second'', p_AllowedValues = [], p_ArrayItemType = []\<rparr>"
  by code_simp+

text \<open>
  Claim C2, as stated, fails for request tables: the third row of the request table of
  the example page has three cells and the name \<open>short\<close>, and the extracted map has no
  parameter of that name. \<open>ExtractRequestParameters\<close> only reads rows with at least four
  cells.
\<close>

theorem C2_request_row_of_three_cells_counterexample:
  "table_found ToLower_ru doc_tables (table_after ToLower_ru doc_tables marker_request_params)
   \<and> length (row_cells ToLower_ru doc_tables
               (table_after ToLower_ru doc_tables marker_request_params) 2) = 3
   \<and> row_name ToLower_ru doc_tables (row_cells ToLower_ru doc_tables
        (table_after ToLower_ru doc_tables marker_request_params) 2) = ''short''
   \<and> map_of (fst (ExtractRequestParameters ToLower_ru doc_tables)) ''short'' = None"
proof -
  have "''short'' \<notin> set (map fst (fst (ExtractRequestParameters ToLower_ru doc_tables)))"
    unfolding doc_tables_request(7) by simp
  then have "map_of (fst (ExtractRequestParameters ToLower_ru doc_tables)) ''short'' = None"
    by (simp add: map_of_eq_None_iff)
  then show ?thesis
    using doc_tables_request(1,5,6) by (intro conjI)
qed

text \<open>
  Claim C2, amended. Neither extractor returns an error. Without a table after the
  marker heading the map is empty. With one, the rows below the elements that follow
  the marker headings are taken in document order and the first of them, the header row
  (index 0), is skipped; every later row with at least four cells (request table) or
  at least three cells (response table) and a non-empty name has a parameter under its
  name in the map; the parameter stored under a name is the parse of the last such row
  with that name, so that a later row replaces an earlier row of the same name and a row
  that no such row of the same name follows is stored as parsed; and no name occurs
  twice. A row is parsed to no parameter exactly when it has fewer than three cells or
  its name is empty, and the parse maps the cells to the fields by position.
\<close>

theorem C2_parameter_rows:
  "snd (ExtractRequestParameters lower doc) = None
   \<and> snd (ExtractResponseParameters lower doc) = None
   \<and> (\<not> table_found lower doc (table_after lower doc marker_request_params) \<longrightarrow>
        fst (ExtractRequestParameters lower doc) = [])
   \<and> (table_found lower doc (table_after lower doc marker_request_params) \<longrightarrow>
        rows_extracted lower doc (table_after lower doc marker_request_params) 4 True
          (fst (ExtractRequestParameters lower doc)))
   \<and> (\<not> table_found lower doc (table_after lower doc marker_response_params) \<longrightarrow>
        fst (ExtractResponseParameters lower doc) = [])
   \<and> (table_found lower doc (table_after lower doc marker_response_params) \<longrightarrow>
        rows_extracted lower doc (table_after lower doc marker_response_params) 3 False
          (fst (ExtractResponseParameters lower doc)))
   \<and> (\<forall>cells isRequest.
        parseParameterRow lower doc cells isRequest = None
          \<longleftrightarrow> length cells < 3 \<or> row_name lower doc cells = [])
   \<and> (\<forall>cells isRequest p. parseParameterRow lower doc cells isRequest = Some p \<longrightarrow>
        p_Name p = row_name lower doc cells
        \<and> p_Type p = TrimSpace (Text doc (Eq cells 1))
        \<and> p_Required p = (lower (TrimSpace (Text doc (Eq cells 2))) = word_yes)
        \<and> (isRequest \<and> 5 \<le> length cells \<longrightarrow>
             p_AllowedValues p = TrimSpace (Text doc (Eq cells 3))
             \<and> p_Description p = TrimSpace (Text doc (Eq cells 4)))
        \<and> (\<not> isRequest \<and> 4 \<le> length cells \<longrightarrow>
             p_AllowedValues p = [] \<and> p_Description p = TrimSpace (Text doc (Eq cells 3)))
        \<and> (isRequest \<and> 4 \<le> length cells \<and> \<not> 5 \<le> length cells \<longrightarrow>
             p_AllowedValues p = []
             \<and> p_Description p = TrimSpace (Text doc (Eq cells (length cells - 1))))
        \<and> (length cells = 3 \<longrightarrow> p_AllowedValues p = [] \<and> p_Description p = []))"
proof (intro conjI allI impI)
  show "snd (ExtractRequestParameters lower doc) = None"
    by (rule ExtractRequestParameters_no_error)
  show "snd (ExtractResponseParameters lower doc) = None"
    by (rule ExtractResponseParameters_no_error)
  show "fst (ExtractRequestParameters lower doc) = []"
    if "\<not> table_found lower doc (table_after lower doc marker_request_params)"
    using that by (simp add: ExtractRequestParameters_eq)
  show "rows_extracted lower doc (table_after lower doc marker_request_params) 4 True
          (fst (ExtractRequestParameters lower doc))"
    if "table_found lower doc (table_after lower doc marker_request_params)"
    using that parameter_rows_extracted[of 4 lower doc _ True]
    by (simp add: ExtractRequestParameters_eq)
  show "fst (ExtractResponseParameters lower doc) = []"
    if "\<not> table_found lower doc (table_after lower doc marker_response_params)"
    using that by (simp add: ExtractResponseParameters_eq)
  show "rows_extracted lower doc (table_after lower doc marker_response_params) 3 False
          (fst (ExtractResponseParameters lower doc))"
    if "table_found lower doc (table_after lower doc marker_response_params)"
    using that parameter_rows_extracted[of 3 lower doc _ False]
    by (simp add: ExtractResponseParameters_eq)
  show "parseParameterRow lower doc cells isRequest = None
          \<longleftrightarrow> length cells < 3 \<or> row_name lower doc cells = []" for cells isRequest
    by (rule parseParameterRow_None_iff)
next
  fix cells isRequest p
  assume s: "parseParameterRow lower doc cells isRequest = Some p"
  note r = parseParameterRow_Some[OF s]
  show "p_Name p = row_name lower doc cells" using r by blast
  show "p_Type p = TrimSpace (Text doc (Eq cells 1))" using r by blast
  show "p_Required p = (lower (TrimSpace (Text doc (Eq cells 2))) = word_yes)"
    using r by blast
  show "p_AllowedValues p = TrimSpace (Text doc (Eq cells 3))"
    if "isRequest \<and> 5 \<le> length cells" using r that by blast
  show "p_Description p = TrimSpace (Text doc (Eq cells 4))"
    if "isRequest \<and> 5 \<le> length cells" using r that by blast
  show "p_AllowedValues p = []"
    if "\<not> isRequest \<and> 4 \<le> length cells" using r that by blast
  show "p_Description p = TrimSpace (Text doc (Eq cells 3))"
    if "\<not> isRequest \<and> 4 \<le> length cells" using r that by blast
  show "p_AllowedValues p = []"
    if "isRequest \<and> 4 \<le> length cells \<and> \<not> 5 \<le> length cells" using r that by blast
  show "p_Description p = TrimSpace (Text doc (Eq cells (length cells - 1)))"
    if "isRequest \<and> 4 \<le> length cells \<and> \<not> 5 \<le> length cells" using r that by blast
  show "p_AllowedValues p = []" if "length cells = 3" using r that by blast
  show "p_Description p = []" if "length cells = 3" using r that by blast
qed

text \<open>
  Witness for C2, on the example pages: the request row \<open>access_token\<close> (five cells) and
  the response row \<open>three\<close> (three cells) each have a parameter under their name; the
  request map has no other key (the row of three cells and the row with the empty name
  are left out); of the two response rows with the name \<open>id\<close> the second is the stored
  one.
\<close>

theorem C2_parameter_rows_witness:
  "table_found ToLower_ru doc_tables (table_after ToLower_ru doc_tables marker_request_params)
   \<and> (\<exists>p. map_of (fst (ExtractRequestParameters ToLower_ru doc_tables)) ''access_token'' = Some p)
   \<and> map fst (fst (ExtractRequestParameters ToLower_ru doc_tables)) = [''access_token'']
   \<and> table_found ToLower_ru doc_tables (table_after ToLower_ru doc_tables marker_response_params)
   \<and> (\<exists>p. map_of (fst (ExtractResponseParameters ToLower_ru doc_tables)) ''three'' = Some p)
   \<and> snd (ExtractRequestParameters ToLower_ru doc_tables) = None
   \<and> table_found ToLower_ru doc_dup (table_after ToLower_ru doc_dup marker_response_params)
   \<and> parseParameterRow ToLower_ru doc_dup (row_cells ToLower_ru doc_dup
          (table_after ToLower_ru doc_dup marker_response_params) 1) False
       = Some \<lparr>p_Name = ''id'', p_Type = ''string'', p_Required = True,
                p_Description = ''First'', p_AllowedValues = [], p_ArrayItemType = []\<rparr>
   \<and> map_of (fst (ExtractResponseParameters ToLower_ru doc_dup)) ''id''
       = Some \<lparr>p_Name = ''id'', p_Type = ''number'', p_Required = False,
                p_Description = ''Second'', p_AllowedValues = [], p_ArrayItemType = []\<rparr>"
proof -
  note t = C2_parameter_rows[of ToLower_ru doc_tables]
  have rq: "rows_extracted ToLower_ru doc_tables
      (table_after ToLower_ru doc_tables marker_request_params) 4 True
      (fst (ExtractRequestParameters ToLower_ru doc_tables))"
    using t[THEN conjunct2, THEN conjunct2, THEN conjunct2, THEN conjunct1]
      doc_tables_request(1) by simp
  have rs: "rows_extracted ToLower_ru doc_tables
      (table_after ToLower_ru doc_tables marker_response_params) 3 False
      (fst (ExtractResponseParameters ToLower_ru doc_tables))"
    using t[THEN conjunct2, THEN conjunct2, THEN conjunct2, THEN conjunct2, THEN conjunct2,
            THEN conjunct1]
      doc_tables_response(1) by simp
  have w1: "\<exists>p. map_of (fst (ExtractRequestParameters ToLower_ru doc_tables)) ''access_token''
      = Some p"
    using rq[unfolded rows_extracted_def, THEN conjunct1, rule_format, of 1]
      doc_tables_request(2,3,4) by simp
  have w2: "\<exists>p. map_of (fst (ExtractResponseParameters ToLower_ru doc_tables)) ''three''
      = Some p"
    using rs[unfolded rows_extracted_def, THEN conjunct1, rule_format, of 2]
      doc_tables_response(2,3,4) by simp
  have w3: "snd (ExtractRequestParameters ToLower_ru doc_tables) = None"
    using t[THEN conjunct1] .
  note d = C2_parameter_rows[of ToLower_ru doc_dup]
  have rd: "rows_extracted ToLower_ru doc_dup
      (table_after ToLower_ru doc_dup marker_response_params) 3 False
      (fst (ExtractResponseParameters ToLower_ru doc_dup))"
    using d[THEN conjunct2, THEN conjunct2, THEN conjunct2, THEN conjunct2, THEN conjunct2,
            THEN conjunct1]
      doc_dup_response(1) by simp
  have "map_of (fst (ExtractResponseParameters ToLower_ru doc_dup))
          (row_name ToLower_ru doc_dup (row_cells ToLower_ru doc_dup
             (table_after ToLower_ru doc_dup marker_response_params) 2))
      = parseParameterRow ToLower_ru doc_dup (row_cells ToLower_ru doc_dup
          (table_after ToLower_ru doc_dup marker_response_params) 2) False"
  proof (rule rd[unfolded rows_extracted_def, THEN conjunct2, THEN conjunct1, rule_format, of 2],
         intro conjI allI impI)
    fix j
    assume "2 < j \<and> j < length (Find ToLower_ru doc_dup
               (table_after ToLower_ru doc_dup marker_response_params) (Tag ''tr''))
         \<and> 3 \<le> length (row_cells ToLower_ru doc_dup
               (table_after ToLower_ru doc_dup marker_response_params) j)"
    then have "2 < j" "j < 3" unfolding doc_dup_response(2) by simp_all
    then show "row_name ToLower_ru doc_dup (row_cells ToLower_ru doc_dup
             (table_after ToLower_ru doc_dup marker_response_params) j)
        \<noteq> row_name ToLower_ru doc_dup (row_cells ToLower_ru doc_dup
             (table_after ToLower_ru doc_dup marker_response_params) 2)" by arith
  qed (simp_all add: doc_dup_response(2,5,6))
  then have w4: "map_of (fst (ExtractResponseParameters ToLower_ru doc_dup)) ''id''
       = Some \<lparr>p_Name = ''id'', p_Type = ''number'', p_Required = False,
                p_Description = ''Second'', p_AllowedValues = [], p_ArrayItemType = []\<rparr>"
    unfolding doc_dup_response(6) doc_dup_response(8) .
  from doc_tables_request(1) w1 doc_tables_request(7) doc_tables_response(1) w2 w3
    doc_dup_response(1) doc_dup_response(7) w4
  show ?thesis by (intro conjI)
qed

end
